theory Spec2Isabelle
  imports Complex_Main
begin

section \<open>Numeric conventions\<close>

text \<open>
  The program computes on IEEE doubles held in numpy arrays and pandas columns. Every
  finite price is modelled as a \<^typ>\<open>real\<close> and rounding is not modelled; the value
  \<open>NaN\<close>, which the program uses for "no value yet", is modelled as \<^term>\<open>None\<close> in
  \<^typ>\<open>real option\<close>. A comparison with \<open>NaN\<close> is false in the program, so a comparison
  with \<^term>\<open>None\<close> is false in the model.
\<close>

datatype error = ValueError | IndexError

text \<open>Python's slice \<open>xs[a:b]\<close>: a negative bound counts from the end, and both bounds
  are clamped to the length.\<close>

definition py_slice :: "'a list \<Rightarrow> int \<Rightarrow> int \<Rightarrow> 'a list" where
  "py_slice xs a b =
     (let n = int (length xs);
          lo = (if a < 0 then max (a + n) 0 else min a n);
          hi = (if b < 0 then max (b + n) 0 else min b n)
      in take (nat (hi - lo)) (drop (nat lo) xs))"

text \<open>Python's index \<open>xs[j]\<close>: a negative \<open>j\<close> counts from the end, and an index
  out of range raises \<open>IndexError\<close>.\<close>

definition py_index :: "'a list \<Rightarrow> int \<Rightarrow> error + 'a" where
  "py_index xs j =
     (let n = int (length xs); k = (if j < 0 then j + n else j)
      in if 0 \<le> k \<and> k < n then Inr (xs ! nat k) else Inl IndexError)"

text \<open>\<open>np.max\<close> and \<open>np.min\<close> raise \<open>ValueError\<close> on an empty array.\<close>

definition np_max :: "real list \<Rightarrow> error + real" where
  "np_max xs = (if xs = [] then Inl ValueError else Inr (Max (set xs)))"

definition np_min :: "real list \<Rightarrow> error + real" where
  "np_min xs = (if xs = [] then Inl ValueError else Inr (Min (set xs)))"

definition np_clip :: "real \<Rightarrow> real \<Rightarrow> real \<Rightarrow> real" where
  "np_clip x lo hi = min (max x lo) hi"

section \<open>Configuration\<close>

definition H1_LOOKBACK :: int where "H1_LOOKBACK = 120"
definition FISHER_PERIOD :: int where "FISHER_PERIOD = 10"
definition RSI_PERIOD :: int where "RSI_PERIOD = 5"
definition FISHER_RSI_GAP :: real where "FISHER_RSI_GAP = 0.6"
definition SR_LOOKBACK :: int where "SR_LOOKBACK = 20"
definition M15_LOOKBACK :: int where "M15_LOOKBACK = 200"
definition EMA50_M15_PERIOD :: nat where "EMA50_M15_PERIOD = 50"
definition SMA200_PERIOD :: nat where "SMA200_PERIOD = 200"
definition SMA400_PERIOD :: nat where "SMA400_PERIOD = 400"
definition BOLL_WINDOW :: nat where "BOLL_WINDOW = 20"
definition CHECK_INTERVAL :: nat where "CHECK_INTERVAL = 30"

section \<open>The Fisher transform\<close>

text \<open>
  The loop of \<open>fisher_transform\<close> runs over the indices \<open>0 .. n-1\<close> and carries the
  arrays \<open>filt\<close> and \<open>fisher\<close> and the scalar \<open>prev_val\<close>. (The array \<open>val\<close> is
  allocated and never read or written again.)
\<close>

record fisher_state =
  filt :: "real list"
  fisher :: "real option list"
  prev_val :: real

definition fisher_init :: "nat \<Rightarrow> fisher_state" where
  "fisher_init n = \<lparr>filt = replicate n 0, fisher = replicate n None, prev_val = 0\<rparr>"

text \<open>The clipped \<open>raw\<close> of one index \<open>i\<close>, from the window ending at \<open>i\<close> and the
  carried value \<open>pv\<close>.\<close>

definition fisher_raw :: "real list \<Rightarrow> int \<Rightarrow> nat \<Rightarrow> real \<Rightarrow> error + real" where
  "fisher_raw price period i pv =
     (let window = py_slice price (int i - period + 1) (int i + 1) in
      case np_max window of
        Inl e \<Rightarrow> Inl e
      | Inr max_h \<Rightarrow>
          (case np_min window of
             Inl e \<Rightarrow> Inl e
           | Inr min_l \<Rightarrow>
               (let raw = (if max_h - min_l = 0 then 0
                           else 0.33 * 2 * ((price ! i - min_l) / (max_h - min_l) - 0.5)
                                + 0.67 * pv)
                in Inr (np_clip raw (- 0.999) 0.999))))"

definition fisher_val :: "real \<Rightarrow> real" where
  "fisher_val raw = 0.5 * ln ((1 + raw) / (1 - raw))"

text \<open>One pass of the loop body at index \<open>i\<close>.\<close>

definition fisher_body :: "real list \<Rightarrow> int \<Rightarrow> nat \<Rightarrow> fisher_state \<Rightarrow> error + fisher_state" where
  "fisher_body price period i s =
     (if int i < period then Inr s
      else
        case fisher_raw price period i (prev_val s) of
          Inl e \<Rightarrow> Inl e
        | Inr raw \<Rightarrow>
            (let y = fisher_val raw in
             case (if int i > period
                   then (case py_index (filt s) (int i - 1) of
                           Inl e \<Rightarrow> Inl e
                         | Inr fp \<Rightarrow> Inr (0.5 * y + 0.5 * fp))
                   else Inr y) of
               Inl e \<Rightarrow> Inl e
             | Inr f \<Rightarrow>
                 Inr \<lparr>filt = (filt s)[i := f], fisher = (fisher s)[i := Some f],
                       prev_val = raw\<rparr>))"

fun fisher_loop :: "real list \<Rightarrow> int \<Rightarrow> nat list \<Rightarrow> fisher_state \<Rightarrow> error + fisher_state" where
  "fisher_loop price period [] s = Inr s"
| "fisher_loop price period (i # is) s =
     (case fisher_body price period i s of
        Inl e \<Rightarrow> Inl e
      | Inr s' \<Rightarrow> fisher_loop price period is s')"

definition fisher_transform :: "real list \<Rightarrow> int \<Rightarrow> error + real option list" where
  "fisher_transform price period =
     (case fisher_loop price period [0..<length price] (fisher_init (length price)) of
        Inl e \<Rightarrow> Inl e
      | Inr s \<Rightarrow> Inr (fisher s))"

section \<open>Bars and fetching\<close>

text \<open>One row of the rates MetaTrader returns: the bar's opening time in seconds since
  the epoch and its four prices.\<close>

record bar =
  bar_time :: nat
  bar_open :: real
  bar_high :: real
  bar_low :: real
  bar_close :: real

datatype timeframe = TIMEFRAME_M15 | TIMEFRAME_H1

text \<open>\<open>fetch_ohlc\<close> asks the terminal for the bars of a time range; \<open>rates\<close> is the
  terminal's answer. No answer and an empty answer both give \<open>None\<close>, so a frame that
  is returned has at least one row.\<close>

definition fetch_ohlc :: "bar list option \<Rightarrow> bar list option" where
  "fetch_ohlc rates =
     (case rates of
        None \<Rightarrow> None
      | Some rs \<Rightarrow> if length rs = 0 then None else Some rs)"

section \<open>Library indicators\<close>

text \<open>
  Modelled from the spec: the functions of pandas and ta that the program calls
  (\<open>ewm(span, adjust=False).mean()\<close>, \<open>rolling(window).mean()\<close>, \<open>BollingerBands\<close>,
  \<open>Series.max\<close>, \<open>Series.min\<close>) are libraries outside the repository. The exponential
  average is the standard recursion without bias adjustment, a rolling statistic is
  undefined until its window is full, and the bands are the rolling mean plus and minus
  twice the rolling (population) standard deviation.
\<close>

fun ewm_rec :: "real \<Rightarrow> real \<Rightarrow> real list \<Rightarrow> real list" where
  "ewm_rec a y [] = []"
| "ewm_rec a y (x # xs) = (let y' = (1 - a) * y + a * x in y' # ewm_rec a y' xs)"

definition ewm_mean :: "nat \<Rightarrow> real list \<Rightarrow> real option list" where
  "ewm_mean spn xs =
     (case xs of
        [] \<Rightarrow> []
      | x # xs' \<Rightarrow> map Some (x # ewm_rec (2 / (real spn + 1)) x xs'))"

definition rolling_window :: "nat \<Rightarrow> real list \<Rightarrow> nat \<Rightarrow> real list option" where
  "rolling_window w xs i = (if i + 1 < w then None else Some (take w (drop (i + 1 - w) xs)))"

definition mean :: "real list \<Rightarrow> real" where
  "mean ws = sum_list ws / real (length ws)"

definition pstd :: "real list \<Rightarrow> real" where
  "pstd ws = sqrt (sum_list (map (\<lambda>x. (x - mean ws)\<^sup>2) ws) / real (length ws))"

definition rolling_mean :: "nat \<Rightarrow> real list \<Rightarrow> real option list" where
  "rolling_mean w xs = map (\<lambda>i. map_option mean (rolling_window w xs i)) [0..<length xs]"

definition rolling_std :: "nat \<Rightarrow> real list \<Rightarrow> real option list" where
  "rolling_std w xs = map (\<lambda>i. map_option pstd (rolling_window w xs i)) [0..<length xs]"

definition bollinger_hband :: "nat \<Rightarrow> real \<Rightarrow> real list \<Rightarrow> real option list" where
  "bollinger_hband w dev xs =
     map (\<lambda>i. map_option (\<lambda>ws. mean ws + dev * pstd ws) (rolling_window w xs i))
       [0..<length xs]"

definition bollinger_lband :: "nat \<Rightarrow> real \<Rightarrow> real list \<Rightarrow> real option list" where
  "bollinger_lband w dev xs =
     map (\<lambda>i. map_option (\<lambda>ws. mean ws - dev * pstd ws) (rolling_window w xs i))
       [0..<length xs]"

text \<open>\<open>Series.max()\<close> and \<open>Series.min()\<close> of an empty series are \<open>NaN\<close>.\<close>

definition series_max :: "real list \<Rightarrow> real option" where
  "series_max xs = (if xs = [] then None else Some (Max (set xs)))"

definition series_min :: "real list \<Rightarrow> real option" where
  "series_min xs = (if xs = [] then None else Some (Min (set xs)))"

text \<open>Assigning a series to a column aligns it with the frame's index: a row the series
  has no value for gets \<open>NaN\<close>.\<close>

definition column_at :: "real option list \<Rightarrow> nat \<Rightarrow> real option" where
  "column_at col i = (if i < length col then col ! i else None)"

section \<open>Indicator calculators\<close>

record h1_row =
  h1_bar :: bar
  h1_rsi :: "real option"
  h1_fisher :: "real option"

text \<open>The momentum oscillator \<open>ta.momentum.RSIIndicator(close, window).rsi()\<close> is a
  library function; it is the parameter \<open>rsi\<close> here.\<close>

definition compute_h1_indicators ::
  "(real list \<Rightarrow> int \<Rightarrow> real option list) \<Rightarrow> bar list \<Rightarrow> error + h1_row list" where
  "compute_h1_indicators rsi df_h1 =
     (let closes = map bar_close df_h1;
          rsi_col = rsi closes RSI_PERIOD
      in case fisher_transform closes FISHER_PERIOD of
           Inl e \<Rightarrow> Inl e
         | Inr fisher_col \<Rightarrow>
             Inr (map (\<lambda>i. \<lparr>h1_bar = df_h1 ! i, h1_rsi = column_at rsi_col i,
                               h1_fisher = column_at fisher_col i\<rparr>)
                    [0..<length df_h1]))"

record m15_row =
  m15_bar :: bar
  ema50 :: "real option"
  sma200 :: "real option"
  sma400 :: "real option"
  bb_h :: "real option"
  bb_l :: "real option"

definition compute_m15_indicators :: "bar list \<Rightarrow> m15_row list" where
  "compute_m15_indicators df_m15 =
     (let closes = map bar_close df_m15;
          ema50_col = ewm_mean EMA50_M15_PERIOD closes;
          sma200_col = rolling_mean SMA200_PERIOD closes;
          sma400_col = rolling_mean SMA400_PERIOD closes;
          bb_h_col = bollinger_hband BOLL_WINDOW 2 closes;
          bb_l_col = bollinger_lband BOLL_WINDOW 2 closes
      in map (\<lambda>i. \<lparr>m15_bar = df_m15 ! i, ema50 = column_at ema50_col i,
                        sma200 = column_at sma200_col i, sma400 = column_at sma400_col i,
                        bb_h = column_at bb_h_col i, bb_l = column_at bb_l_col i\<rparr>)
           [0..<length df_m15])"

section \<open>Minor support and resistance\<close>

datatype sr_type = Resistance | Support

definition small_pct :: real where
  "small_pct = 0.0005"

text \<open>In the two breach branches the reference level is a number (the comparison with
  \<open>NaN\<close> is false), so \<^term>\<open>the\<close> is only applied to \<^term>\<open>Some ph\<close> there.\<close>

definition detect_minor_sr_breach ::
  "bar list \<Rightarrow> int \<Rightarrow> error + (sr_type option \<times> real option \<times> real)" where
  "detect_minor_sr_breach df_h1 lookback =
     (if int (length df_h1) < lookback + 2 then Inr (None, None, 0)
      else
        let recent = py_slice df_h1 (- lookback - 1) (- 1);
            prev_high = series_max (map bar_high recent);
            prev_low = series_min (map bar_low recent)
        in case py_index df_h1 (- 1) of
             Inl e \<Rightarrow> Inl e
           | Inr last_bar \<Rightarrow>
               if (case prev_high of
                     None \<Rightarrow> False
                   | Some ph \<Rightarrow> bar_high last_bar > ph * (1 + small_pct))
               then Inr (Some Resistance, prev_high, bar_high last_bar - the prev_high)
               else if (case prev_low of
                          None \<Rightarrow> False
                        | Some pl \<Rightarrow> bar_low last_bar < pl * (1 - small_pct))
               then Inr (Some Support, prev_low, the prev_low - bar_low last_bar)
               else Inr (None, None, 0))"

section \<open>The checklist monitor\<close>

text \<open>
  The fields of a \<open>ChecklistMonitor\<close> that the monitoring thread reads and writes. The
  five checkboxes \<open>vars[0..4]\<close> are \<open>IntVar\<close>s holding 0 or 1; boxes 3 and 4 are the
  "retrace" and "ALL conditions met" flags.
\<close>

record monitor =
  h1_sr_breached :: bool
  h1_left_fisher :: bool
  h1_last_close_below_50 :: bool
  h1_time_ok :: bool
  m15_retrace_ok :: bool
  vars :: "nat \<Rightarrow> int"

definition monitor_init :: monitor where
  "monitor_init =
     \<lparr>h1_sr_breached = False, h1_left_fisher = False, h1_last_close_below_50 = False,
      h1_time_ok = False, m15_retrace_ok = False, vars = (\<lambda>i. 0)\<rparr>"

text \<open>
  What a cycle does to the outside, in order: a request for bars, a log line, a
  notification (\<open>notify\<close> writes the log line "title - message" and shows the toast), and
  the sleep that ends the cycle.
\<close>

datatype event =
    Fetch timeframe int
  | Log string
  | LogError error
  | Notify string string
  | Sleep nat

text \<open>Arithmetic and comparison on values that may be \<open>NaN\<close>.\<close>

definition nan_sub :: "real option \<Rightarrow> real option \<Rightarrow> real option" where
  "nan_sub a b = (case (a, b) of (Some x, Some y) \<Rightarrow> Some (x - y) | _ \<Rightarrow> None)"

definition nan_abs :: "real option \<Rightarrow> real option" where
  "nan_abs a = map_option abs a"

definition nan_ge :: "real option \<Rightarrow> real \<Rightarrow> bool" where
  "nan_ge a c = (case a of Some x \<Rightarrow> x \<ge> c | None \<Rightarrow> False)"

definition nan_lt :: "real option \<Rightarrow> real \<Rightarrow> bool" where
  "nan_lt a c = (case a of Some x \<Rightarrow> x < c | None \<Rightarrow> False)"

definition isnan_any :: "real option list \<Rightarrow> bool" where
  "isnan_any vs = list_ex (\<lambda>v. v = None) vs"

text \<open>The hour of a timestamp given in seconds since the epoch.\<close>

definition hour_of :: "nat \<Rightarrow> nat" where
  "hour_of t = (t div 3600) mod 24"

definition not_out_bands :: "real \<Rightarrow> real \<Rightarrow> real \<Rightarrow> bool" where
  "not_out_bands lo price hi = (lo < price \<and> price < hi)"

definition touched_ema :: "real \<Rightarrow> real \<Rightarrow> bool" where
  "touched_ema price ema = (\<bar>price - ema\<bar> \<le> 0.0004)"

text \<open>
  \<open>monitor_m15\<close>: \<open>rates\<close> is the terminal's answer to the request for fast-timeframe
  bars. The result is the monitor afterwards, the events of the call and the exception
  that left it, if any. Past the \<open>NaN\<close> guard all five indicator values are numbers.
\<close>

definition monitor_m15 :: "bar list option \<Rightarrow> monitor \<Rightarrow> monitor \<times> event list \<times> error option" where
  "monitor_m15 rates s =
     (let ev = [Fetch TIMEFRAME_M15 M15_LOOKBACK] in
      case fetch_ohlc rates of
        None \<Rightarrow> (s, ev, None)
      | Some df_m15 \<Rightarrow>
          (case py_index (compute_m15_indicators df_m15) (- 1) of
             Inl e \<Rightarrow> (s, ev, Some e)
           | Inr row \<Rightarrow>
               if isnan_any [ema50 row, sma200 row, sma400 row, bb_h row, bb_l row]
               then (s, ev, None)
               else
                 let price = bar_close (m15_bar row);
                     sma_side_ok = the (sma200 row) > the (sma400 row);
                     in_bands = not_out_bands (the (bb_l row)) price (the (bb_h row));
                     touched = touched_ema price (the (ema50 row))
                 in if sma_side_ok \<and> in_bands \<and> touched
                    then (s\<lparr>vars := ((vars s)(3 := 1))(4 := 1)\<rparr>,
                          ev @ [Notify ''M15'' ''Retrace confirmed, ALL conditions met!''],
                          None)
                    else (s, ev, None)))"

text \<open>
  One pass of the body of \<open>monitor_loop\<close>: \<open>h1_rates\<close> is the terminal's answer to the
  slow-timeframe request of this cycle and \<open>m15_rates\<close> its answer to the
  fast-timeframe request, should the cycle make one. An exception is caught by the
  handler of the loop, which logs it and sleeps; what was written before stays written.
\<close>

definition all_h1_gates :: "monitor \<Rightarrow> bool" where
  "all_h1_gates s =
     (h1_sr_breached s \<and> h1_left_fisher s \<and> h1_last_close_below_50 s \<and> h1_time_ok s)"

definition monitor_cycle ::
  "(real list \<Rightarrow> int \<Rightarrow> real option list) \<Rightarrow> bar list option \<Rightarrow> bar list option \<Rightarrow>
     monitor \<Rightarrow> monitor \<times> event list" where
  "monitor_cycle rsi h1_rates m15_rates s =
     (let ev = [Fetch TIMEFRAME_H1 H1_LOOKBACK] in
      case fetch_ohlc h1_rates of
        None \<Rightarrow> (s, ev @ [Log ''No H1 data yet'', Sleep CHECK_INTERVAL])
      | Some df_h1 \<Rightarrow>
          (case compute_h1_indicators rsi df_h1 of
             Inl e \<Rightarrow> (s, ev @ [LogError e, Sleep CHECK_INTERVAL])
           | Inr hin \<Rightarrow>
               (case detect_minor_sr_breach df_h1 SR_LOOKBACK of
                  Inl e \<Rightarrow> (s, ev @ [LogError e, Sleep CHECK_INTERVAL])
                | Inr (sr, _, _) \<Rightarrow>
                    (let s1 = s\<lparr>h1_sr_breached := (sr \<noteq> None)\<rparr>;
                         s2 = s1\<lparr>vars := (vars s1)(0 := (if h1_sr_breached s1 then 1 else 0))\<rparr>
                     in case py_index hin (- 1) of
                          Inl e \<Rightarrow> (s2, ev @ [LogError e, Sleep CHECK_INTERVAL])
                        | Inr last_h1 \<Rightarrow>
                            (let gap = nan_sub (h1_rsi last_h1) (h1_fisher last_h1);
                                 s3 = s2\<lparr>h1_left_fisher := nan_ge (nan_abs gap) FISHER_RSI_GAP\<rparr>;
                                 s4 = s3\<lparr>vars := (vars s3)(1 := (if h1_left_fisher s3 then 1 else 0))\<rparr>;
                                 s5 = s4\<lparr>h1_last_close_below_50 := nan_lt (h1_rsi last_h1) 50\<rparr>;
                                 s6 = s5\<lparr>vars := (vars s5)(2 := (if h1_last_close_below_50 s5 then 1 else 0))\<rparr>;
                                 hour = hour_of (bar_time (h1_bar last_h1));
                                 s7 = s6\<lparr>h1_time_ok := ((9 \<le> hour \<and> hour \<le> 10) \<or> (14 \<le> hour \<and> hour \<le> 17))\<rparr>
                             in if all_h1_gates s7
                                then (case monitor_m15 m15_rates s7 of
                                        (s8, ev15, None) \<Rightarrow>
                                          (s8, ev @ [Notify ''H1'' ''Conditions met, checking M15...'']
                                                 @ ev15 @ [Sleep CHECK_INTERVAL])
                                      | (s8, ev15, Some e) \<Rightarrow>
                                          (s8, ev @ [Notify ''H1'' ''Conditions met, checking M15...'']
                                                 @ ev15 @ [LogError e, Sleep CHECK_INTERVAL]))
                                else (s7, ev @ [Sleep CHECK_INTERVAL]))))))"

text \<open>
  \<open>monitor_loop\<close> repeats the cycle for ever. The model runs it for the cycles whose
  answers are listed, in order, and returns the monitor and the events so far.
\<close>

fun monitor_loop ::
  "(real list \<Rightarrow> int \<Rightarrow> real option list) \<Rightarrow> (bar list option \<times> bar list option) list \<Rightarrow>
     monitor \<Rightarrow> monitor \<times> event list" where
  "monitor_loop rsi [] s = (s, [])"
| "monitor_loop rsi ((h1_rates, m15_rates) # rest) s =
     (case monitor_cycle rsi h1_rates m15_rates s of
        (s', ev) \<Rightarrow>
          (case monitor_loop rsi rest s' of
             (s'', ev') \<Rightarrow> (s'', ev @ ev')))"

section \<open>The Fisher recurrence, index by index\<close>

text \<open>
  The recurrence as the specification words it, for a period \<open>p \<ge> 1\<close>: the window of
  index \<open>i\<close> is the last \<open>p\<close> closes ending at \<open>i\<close>; the raw value blends the position
  of the close in its window with the previous raw value, and is 0 before the warm-up;
  \<open>y\<close> is the transformed raw value and the output smooths \<open>y\<close> from index \<open>p\<close> on.
\<close>

definition spec_window :: "real list \<Rightarrow> nat \<Rightarrow> nat \<Rightarrow> real list" where
  "spec_window price p i = take p (drop (i + 1 - p) price)"

primrec spec_raw :: "real list \<Rightarrow> nat \<Rightarrow> nat \<Rightarrow> real" where
  "spec_raw price p 0 = 0"
| "spec_raw price p (Suc j) =
     (if Suc j < p then 0
      else
        let max_h = Max (set (spec_window price p (Suc j)));
            min_l = Min (set (spec_window price p (Suc j)));
            raw = (if max_h = min_l then 0
                   else 0.33 * 2 * ((price ! Suc j - min_l) / (max_h - min_l) - 0.5)
                        + 0.67 * spec_raw price p j)
        in min (max raw (- 0.999)) 0.999)"

definition spec_y :: "real list \<Rightarrow> nat \<Rightarrow> nat \<Rightarrow> real" where
  "spec_y price p i = 0.5 * ln ((1 + spec_raw price p i) / (1 - spec_raw price p i))"

primrec spec_filt :: "real list \<Rightarrow> nat \<Rightarrow> nat \<Rightarrow> real" where
  "spec_filt price p 0 = spec_y price p 0"
| "spec_filt price p (Suc j) =
     (if Suc j > p then 0.5 * spec_y price p (Suc j) + 0.5 * spec_filt price p j
      else spec_y price p (Suc j))"

text \<open>The state of the loop when it has passed the indices below \<open>k\<close>.\<close>

definition fisher_inv :: "real list \<Rightarrow> nat \<Rightarrow> nat \<Rightarrow> fisher_state \<Rightarrow> bool" where
  "fisher_inv price p k s \<longleftrightarrow>
     length (filt s) = length price \<and> length (fisher s) = length price \<and>
     prev_val s = (if k = 0 then 0 else spec_raw price p (k - 1)) \<and>
     (\<forall>i<length price. fisher s ! i = (if p \<le> i \<and> i < k then Some (spec_filt price p i) else None)) \<and>
     (\<forall>i<length price. filt s ! i = (if p \<le> i \<and> i < k then spec_filt price p i else 0))"

section \<open>Sample bars\<close>

text \<open>A bar with the given time, high, low and close (and the close as its open), for
  the worked examples.\<close>

definition bar_of :: "nat \<Rightarrow> real \<Rightarrow> real \<Rightarrow> real \<Rightarrow> bar" where
  "bar_of t h l c = \<lparr>bar_time = t, bar_open = c, bar_high = h, bar_low = l, bar_close = c\<rparr>"

section \<open>The gates, from the data\<close>

text \<open>
  The four slow gates as the specification words them, as functions of the bars of the
  cycle: gate A is a breach result that is not null, gate B the distance of the last
  oscillator value from the last transform value, gate C the last oscillator value below
  50, gate D the hour of the last bar in 9 to 10 or 14 to 17. \<open>write_gates\<close> is a monitor
  with the four gates and the first three checkboxes overwritten, and \<open>m15_confirms\<close>
  says that the fast stage gets bars, finds all five indicators defined on the newest
  bar and finds its three conditions true.
\<close>

definition last_rsi :: "(real list \<Rightarrow> int \<Rightarrow> real option list) \<Rightarrow> bar list \<Rightarrow> real option" where
  "last_rsi rsi df = column_at (rsi (map bar_close df) RSI_PERIOD) (length df - 1)"

definition last_fisher :: "bar list \<Rightarrow> real option" where
  "last_fisher df =
     (case fisher_transform (map bar_close df) FISHER_PERIOD of
        Inl e \<Rightarrow> None
      | Inr out \<Rightarrow> column_at out (length df - 1))"

definition gate_breach :: "bar list \<Rightarrow> bool" where
  "gate_breach df =
     (case detect_minor_sr_breach df SR_LOOKBACK of
        Inl e \<Rightarrow> False
      | Inr r \<Rightarrow> fst r \<noteq> None)"

definition gate_divergence :: "(real list \<Rightarrow> int \<Rightarrow> real option list) \<Rightarrow> bar list \<Rightarrow> bool" where
  "gate_divergence rsi df =
     (case (last_rsi rsi df, last_fisher df) of
        (Some r, Some f) \<Rightarrow> \<bar>r - f\<bar> \<ge> FISHER_RSI_GAP
      | _ \<Rightarrow> False)"

definition gate_below_midline :: "(real list \<Rightarrow> int \<Rightarrow> real option list) \<Rightarrow> bar list \<Rightarrow> bool" where
  "gate_below_midline rsi df = (case last_rsi rsi df of Some r \<Rightarrow> r < 50 | None \<Rightarrow> False)"

definition gate_time :: "bar list \<Rightarrow> bool" where
  "gate_time df =
     (hour_of (bar_time (last df)) \<in> {9, 10} \<union> {14, 15, 16, 17})"

definition write_gates :: "bool \<Rightarrow> bool \<Rightarrow> bool \<Rightarrow> bool \<Rightarrow> monitor \<Rightarrow> monitor" where
  "write_gates a b c d s =
     s\<lparr>h1_sr_breached := a, h1_left_fisher := b, h1_last_close_below_50 := c,
       h1_time_ok := d,
       vars := (vars s)(0 := (if a then 1 else 0), 1 := (if b then 1 else 0),
                        2 := (if c then 1 else 0))\<rparr>"

definition m15_confirms :: "bar list option \<Rightarrow> bool" where
  "m15_confirms rates =
     (case fetch_ohlc rates of
        None \<Rightarrow> False
      | Some df_m15 \<Rightarrow>
          (case py_index (compute_m15_indicators df_m15) (- 1) of
             Inl e \<Rightarrow> False
           | Inr row \<Rightarrow>
               \<not> isnan_any [ema50 row, sma200 row, sma400 row, bb_h row, bb_l row]
               \<and> the (sma200 row) > the (sma400 row)
               \<and> not_out_bands (the (bb_l row)) (bar_close (m15_bar row)) (the (bb_h row))
               \<and> touched_ema (bar_close (m15_bar row)) (the (ema50 row))))"

section \<open>Sample series\<close>

text \<open>
  Series for the worked examples. \<open>breakout_bars t\<close> is 22 hourly bars stamped \<open>t\<close> with
  flat closes whose newest high doubles the earlier highs; \<open>sample_rsi\<close> is an
  oscillator that reads 42 everywhere and \<open>flat_rsi\<close> one that is undefined below
  the index \<open>window\<close> and reads 100 from there on, as the momentum oscillator does on
  closes that never fall; \<open>retrace_bars\<close> is 400 flat bars with one close a
  thousandth higher just before the newest bar.
\<close>

definition breakout_bars :: "nat \<Rightarrow> bar list" where
  "breakout_bars t = bar_of t 1 1 1 # replicate 20 (bar_of t 1 1 1) @ [bar_of t 2 1 1]"

definition sample_rsi :: "real list \<Rightarrow> int \<Rightarrow> real option list" where
  "sample_rsi closes window = map (\<lambda>c. Some 42) closes"

definition flat_rsi :: "real list \<Rightarrow> int \<Rightarrow> real option list" where
  "flat_rsi closes window =
     map (\<lambda>i. if int i < window then None else Some 100) [0..<length closes]"

definition retrace_bars :: "bar list" where
  "retrace_bars =
     replicate 398 (bar_of 0 1 1 1) @ [bar_of 0 (1001 / 1000) (1001 / 1000) (1001 / 1000), bar_of 0 1 1 1]"

section \<open>Properties of the Fisher transform\<close>

lemma fisher_loop_append:
  "fisher_loop price period (is @ js) s =
     (case fisher_loop price period is s of
        Inl e \<Rightarrow> Inl e
      | Inr s' \<Rightarrow> fisher_loop price period js s')"
  by (induction "is" arbitrary: s) (auto split: sum.splits)

lemma fisher_loop_warmup:
  "int k \<le> period \<Longrightarrow> fisher_loop price period [0..<k] s = Inr s"
  by (induction k) (auto simp: fisher_loop_append fisher_body_def)

lemma py_slice_window:
  assumes "0 < p" "p \<le> i" "i < length price"
  shows "py_slice price (int i - int p + 1) (int i + 1) = spec_window price p i"
proof -
  have a: "nat (int i - int p + 1) = i + 1 - p" using assms by linarith
  have b: "nat (int i + 1 - (int i - int p + 1)) = p" by linarith
  show ?thesis using assms by (simp add: py_slice_def spec_window_def Let_def a b)
qed

lemma spec_window_nonempty:
  assumes "0 < p" "i < length price"
  shows "spec_window price p i \<noteq> []"
  using assms by (simp add: spec_window_def)

lemma fisher_raw_spec:
  assumes "0 < p" "p \<le> Suc j" "Suc j < length price"
  shows "fisher_raw price (int p) (Suc j) (spec_raw price p j) = Inr (spec_raw price p (Suc j))"
  using assms spec_window_nonempty[of p "Suc j" price] py_slice_window[of p "Suc j" price]
  by (simp add: fisher_raw_def np_max_def np_min_def np_clip_def Let_def)


lemma spec_raw_warmup: "i < p \<Longrightarrow> spec_raw price p i = 0"
  by (cases i) simp_all

lemma spec_filt_first: "i \<le> p \<Longrightarrow> spec_filt price p i = spec_y price p i"
  by (cases i) simp_all

lemma clip_bounds:
  fixes x :: real
  assumes "lo \<le> hi"
  shows "lo \<le> min (max x lo) hi \<and> min (max x lo) hi \<le> hi"
  using assms by (simp add: min_def max_def)

lemma fisher_inv_init: "fisher_inv price p 0 (fisher_init (length price))"
  by (simp add: fisher_inv_def fisher_init_def)

lemma fisher_body_warmup: "k < p \<Longrightarrow> fisher_body price (int p) k s = Inr s"
  by (simp add: fisher_body_def)

lemma fisher_inv_step_warmup:
  assumes "k < p" "fisher_inv price p k s"
  shows "fisher_inv price p (Suc k) s"
  using assms by (auto simp: fisher_inv_def spec_raw_warmup)

lemma py_index_pred:
  assumes "0 < k" "k \<le> length xs"
  shows "py_index xs (int k - 1) = Inr (xs ! (k - 1))"
proof -
  have "nat (int k - 1) = k - 1" by linarith
  then show ?thesis using assms by (simp add: py_index_def Let_def)
qed

lemma fisher_body_run:
  assumes p: "0 < p" and k: "p \<le> k" "k < length price" and inv: "fisher_inv price p k s"
  shows "fisher_body price (int p) k s =
           Inr \<lparr>filt = (filt s)[k := spec_filt price p k],
                 fisher = (fisher s)[k := Some (spec_filt price p k)],
                 prev_val = spec_raw price p k\<rparr>"
proof -
  obtain j where j: "k = Suc j" using p k by (cases k) auto
  have pv: "prev_val s = spec_raw price p j" using inv j by (simp add: fisher_inv_def)
  have raw: "fisher_raw price (int p) k (prev_val s) = Inr (spec_raw price p k)"
    using fisher_raw_spec[of p j price] p k j pv by simp
  have y: "fisher_val (spec_raw price p k) = spec_y price p k"
    by (simp add: fisher_val_def spec_y_def)
  have len: "length (filt s) = length price" using inv by (simp add: fisher_inv_def)
  show ?thesis
  proof (cases "p < k")
    case True
    have "py_index (filt s) (int k - 1) = Inr (filt s ! (k - 1))"
      using py_index_pred[of k "filt s"] k p len by simp
    moreover have "filt s ! j = spec_filt price p j"
      using inv True j k by (simp add: fisher_inv_def)
    ultimately show ?thesis using True raw y j
      by (simp add: fisher_body_def Let_def)
  next
    case False
    then have "k = p" using k by simp
    then show ?thesis using raw y j spec_filt_first[of p p price]
      by (simp add: fisher_body_def Let_def)
  qed
qed

lemma fisher_inv_step_run:
  assumes p: "0 < p" and k: "p \<le> k" "k < length price" and inv: "fisher_inv price p k s"
  shows "fisher_inv price p (Suc k)
           \<lparr>filt = (filt s)[k := spec_filt price p k],
            fisher = (fisher s)[k := Some (spec_filt price p k)],
            prev_val = spec_raw price p k\<rparr>"
  using assms by (auto simp: fisher_inv_def nth_list_update)

lemma fisher_loop_snoc:
  "fisher_loop price period (is @ [i]) s =
     (case fisher_loop price period is s of
        Inl e \<Rightarrow> Inl e
      | Inr s' \<Rightarrow> fisher_body price period i s')"
  by (induction "is" arbitrary: s) (auto split: sum.splits)

lemma fisher_loop_inv:
  assumes "0 < p" "k \<le> length price"
  shows "\<exists>s. fisher_loop price (int p) [0..<k] (fisher_init (length price)) = Inr s
             \<and> fisher_inv price p k s"
  using assms(2)
proof (induction k)
  case 0
  then show ?case by (simp add: fisher_inv_init)
next
  case (Suc k)
  then obtain s where s: "fisher_loop price (int p) [0..<k] (fisher_init (length price)) = Inr s"
    and inv: "fisher_inv price p k s" by auto
  show ?case
  proof (cases "k < p")
    case True
    then show ?thesis using s inv fisher_inv_step_warmup[OF True inv]
      by (simp add: fisher_loop_snoc fisher_body_warmup)
  next
    case False
    then have pk: "p \<le> k" by simp
    have kl: "k < length price" using Suc.prems by simp
    show ?thesis
      using s fisher_body_run[OF assms(1) pk kl inv] fisher_inv_step_run[OF assms(1) pk kl inv]
      by (simp add: fisher_loop_snoc)
  qed
qed

lemma spec_raw_clipped: "- 0.999 \<le> spec_raw price p i \<and> spec_raw price p i \<le> 0.999"
proof (cases i)
  case 0
  then show ?thesis by simp
next
  case (Suc j)
  have "(- 0.999 :: real) \<le> 0.999" by simp
  from clip_bounds[OF this] show ?thesis using Suc by (simp add: Let_def)
qed

text \<open>A period that is not positive makes the first window empty, and \<open>np.max\<close>
  raises on it.\<close>

lemma fisher_transform_bad_period:
  assumes "period \<le> 0" "price \<noteq> []"
  shows "fisher_transform price period = Inl ValueError"
proof -
  obtain x xs where p: "price = x # xs" using assms(2) by (cases price) auto
  have u: "[0..<length price] = 0 # [1..<length price]"
    using p by (simp add: upt_rec)
  have "py_slice price (int 0 - period + 1) (int 0 + 1) = []"
    using assms(1) p by (simp add: py_slice_def Let_def min_def)
  then have "fisher_raw price period 0 pv = Inl ValueError" for pv
    by (simp add: fisher_raw_def np_max_def)
  then have "fisher_body price period 0 s = Inl ValueError" for s
    using assms(1) by (simp add: fisher_body_def)
  then show ?thesis by (simp add: fisher_transform_def u)
qed

text \<open>
  Claim C1, as the code has it. The loop skips every index below the period, so the
  carried value \<open>prev_val\<close> is not touched before the warm-up: when the loop has passed
  \<open>k \<le> period\<close> indices the state is still the initial one and \<open>prev_val\<close> is still 0.
  From the index \<open>period\<close> on, each pass that completes stores the clipped raw value of
  its index, computed from the value carried so far.
\<close>

theorem fisher_prev_val_warmup:
  "(int k \<le> period \<longrightarrow>
      fisher_loop price period [0..<k] (fisher_init n) = Inr (fisher_init n)
      \<and> prev_val (fisher_init n) = 0)
   \<and> (period \<le> int i \<and> fisher_body price period i s = Inr s' \<longrightarrow>
        fisher_raw price period i (prev_val s) = Inr (prev_val s'))"
  by (auto simp: fisher_loop_warmup fisher_init_def fisher_body_def Let_def
           split: sum.splits if_splits)

theorem fisher_prev_val_warmup_witness:
  "fisher_loop [1, 2, 3] 2 [0..<2] (fisher_init 3) = Inr (fisher_init 3)
   \<and> prev_val (fisher_init 3) = 0
   \<and> fisher_raw [1, 2, 3] 2 2 (prev_val (fisher_init 3))
       = Inr (prev_val \<lparr>filt = [0, 0, fisher_val 0.33],
                        fisher = [None, None, Some (fisher_val 0.33)], prev_val = 0.33\<rparr>)"
proof -
  have b: "fisher_body [1, 2, 3] 2 2 (fisher_init 3)
        = Inr \<lparr>filt = [0, 0, fisher_val 0.33],
                fisher = [None, None, Some (fisher_val 0.33)], prev_val = 0.33\<rparr>"
    by (simp add: fisher_body_def fisher_raw_def py_slice_def np_max_def np_min_def
          np_clip_def fisher_init_def Let_def numeral_3_eq_3)
  show ?thesis
    using fisher_prev_val_warmup[of 2 2 "[1, 2, 3]" 3 2 "fisher_init 3"
        "\<lparr>filt = [0, 0, fisher_val 0.33],
          fisher = [None, None, Some (fisher_val 0.33)], prev_val = 0.33\<rparr>"] b
    by (simp add: fisher_init_def)
qed

text \<open>
  Claim C1 as written fails: for the closes 1, 2, 3 and period 2 the raw value of index 1
  would be 0.33, but the loop leaves index 1 alone and enters index 2 with \<open>prev_val = 0\<close>.
\<close>

theorem fisher_prev_val_accumulates_counterexample:
  "fisher_loop [1, 2, 3] 2 [0, 1] (fisher_init 3) = Inr (fisher_init 3)
   \<and> prev_val (fisher_init 3) = 0
   \<and> fisher_raw [1, 2, 3] 2 1 (prev_val (fisher_init 3)) = Inr 0.33"
  by (simp add: fisher_body_def fisher_raw_def py_slice_def np_max_def np_min_def
        np_clip_def fisher_init_def Let_def)

text \<open>
  Claim C2. For a period \<open>p \<ge> 1\<close> the transform returns a series as long as the input
  that is undefined below index \<open>p\<close>, is \<open>y = 0.5 * ln ((1 + raw) / (1 - raw))\<close> at index
  \<open>p\<close>, and is \<open>0.5 * y\<close> plus half the previous output at every later index; the raw
  value lies in \<open>[-0.999, 0.999]\<close> at every index.
\<close>

theorem fisher_transform_output:
  assumes "0 < p"
  shows "\<exists>out. fisher_transform price (int p) = Inr out \<and> length out = length price \<and>
           (\<forall>i<length price.
              - 0.999 \<le> spec_raw price p i \<and> spec_raw price p i \<le> 0.999 \<and>
              (i < p \<longrightarrow> out ! i = None) \<and>
              (i = p \<longrightarrow> out ! i = Some (spec_y price p i)) \<and>
              (i > p \<longrightarrow> (\<exists>prev. out ! (i - 1) = Some prev \<and>
                            out ! i = Some (0.5 * spec_y price p i + 0.5 * prev))))"
proof -
  obtain s where s: "fisher_loop price (int p) [0..<length price] (fisher_init (length price)) = Inr s"
    and inv: "fisher_inv price p (length price) s"
    using fisher_loop_inv[OF assms, of "length price" price] by auto
  have out: "fisher_transform price (int p) = Inr (fisher s)"
    using s by (simp add: fisher_transform_def)
  have len: "length (fisher s) = length price" using inv by (simp add: fisher_inv_def)
  have nth: "\<And>i. i < length price \<Longrightarrow>
      fisher s ! i = (if p \<le> i then Some (spec_filt price p i) else None)"
    using inv by (simp add: fisher_inv_def)
  have "\<forall>i<length price.
              - 0.999 \<le> spec_raw price p i \<and> spec_raw price p i \<le> 0.999 \<and>
              (i < p \<longrightarrow> fisher s ! i = None) \<and>
              (i = p \<longrightarrow> fisher s ! i = Some (spec_y price p i)) \<and>
              (i > p \<longrightarrow> (\<exists>prev. fisher s ! (i - 1) = Some prev \<and>
                            fisher s ! i = Some (0.5 * spec_y price p i + 0.5 * prev)))"
  proof (intro allI impI conjI)
    fix i assume i: "i < length price"
    show "- 0.999 \<le> spec_raw price p i" "spec_raw price p i \<le> 0.999"
      using spec_raw_clipped[of price p i] by simp_all
    show "fisher s ! i = None" if "i < p" using that nth[OF i] by simp
    show "fisher s ! i = Some (spec_y price p i)" if "i = p"
      using that nth[OF i] spec_filt_first[of p p price] by simp
    show "\<exists>prev. fisher s ! (i - 1) = Some prev \<and>
            fisher s ! i = Some (0.5 * spec_y price p i + 0.5 * prev)" if pi: "p < i"
    proof -
      obtain j where j: "i = Suc j" using pi by (cases i) auto
      have "fisher s ! j = Some (spec_filt price p j)" using nth[of j] i j pi by simp
      moreover have "fisher s ! i = Some (0.5 * spec_y price p i + 0.5 * spec_filt price p j)"
        using nth[OF i] j pi by simp
      ultimately show ?thesis using j by simp
    qed
  qed
  then show ?thesis using out len by blast
qed

lemma spec_raw_example_2: "spec_raw [1, 2, 3, 5] 2 2 = 0.33"
  by (simp add: numeral_2_eq_2 spec_window_def Let_def)

lemma spec_raw_example_3: "spec_raw [1, 2, 3, 5] 2 3 = 0.5511"
  using spec_raw_example_2 by (simp add: numeral_3_eq_3 numeral_2_eq_2 spec_window_def Let_def)

theorem fisher_transform_output_witness:
  "\<exists>out. fisher_transform [1, 2, 3, 5] (int 2) = Inr out \<and> length out = 4 \<and>
     out ! 0 = None \<and> out ! 1 = None \<and>
     out ! 2 = Some (0.5 * ln ((1 + 0.33) / (1 - 0.33))) \<and>
     out ! 3 = Some (0.5 * (0.5 * ln ((1 + 0.5511) / (1 - 0.5511)))
                     + 0.5 * (0.5 * ln ((1 + 0.33) / (1 - 0.33))))"
proof -
  let ?pr = "[1, 2, 3, 5] :: real list"
  have p: "0 < (2::nat)" by simp
  from fisher_transform_output[OF p, of ?pr]
  obtain out where out: "fisher_transform ?pr (int 2) = Inr out"
    and len: "length out = length ?pr"
    and nth: "\<forall>i<length ?pr.
              - 0.999 \<le> spec_raw ?pr 2 i \<and> spec_raw ?pr 2 i \<le> 0.999 \<and>
              (i < 2 \<longrightarrow> out ! i = None) \<and>
              (i = 2 \<longrightarrow> out ! i = Some (spec_y ?pr 2 i)) \<and>
              (i > 2 \<longrightarrow> (\<exists>prev. out ! (i - 1) = Some prev \<and>
                            out ! i = Some (0.5 * spec_y ?pr 2 i + 0.5 * prev)))"
    by blast
  have o0: "out ! 0 = None" using nth[rule_format, of 0] by simp
  have o1: "out ! 1 = None" using nth[rule_format, of 1] by simp
  have o2: "out ! 2 = Some (spec_y ?pr 2 2)" using nth[rule_format, of 2] by simp
  have o3: "out ! 3 = Some (0.5 * spec_y ?pr 2 3 + 0.5 * spec_y ?pr 2 2)"
    using nth[rule_format, of 3] o2 by simp
  have y2: "spec_y ?pr 2 2 = 0.5 * ln ((1 + 0.33) / (1 - 0.33))"
    unfolding spec_y_def spec_raw_example_2 ..
  have y3: "spec_y ?pr 2 3 = 0.5 * ln ((1 + 0.5511) / (1 - 0.5511))"
    unfolding spec_y_def spec_raw_example_3 ..
  show ?thesis
    unfolding y2[symmetric] y3[symmetric]
    using out len o0 o1 o2 o3 by simp
qed

section \<open>Properties of the breach detector\<close>

lemma py_index_last: "py_index (xs @ [x]) (- 1) = Inr x"
  by (simp add: py_index_def Let_def nth_append)

lemma py_slice_recent:
  assumes "int (length recent) = L"
  shows "py_slice (pre @ recent @ [x]) (- L - 1) (- 1) = recent"
proof -
  have a: "nat (int (length pre) + int (length recent) - int (length pre)) = length recent"
    by simp
  show ?thesis using assms[symmetric]
    by (simp add: py_slice_def Let_def a)
qed

lemma detect_short:
  "int (length df_h1) < L + 2 \<Longrightarrow> detect_minor_sr_breach df_h1 L = Inr (None, None, 0)"
  by (simp add: detect_minor_sr_breach_def)

lemma detect_window:
  assumes "pre \<noteq> []" "int (length recent) = L"
  shows "detect_minor_sr_breach (pre @ recent @ [x]) L =
           Inr (if recent \<noteq> [] \<and> bar_high x > Max (bar_high ` set recent) * (1 + small_pct)
                then (Some Resistance, Some (Max (bar_high ` set recent)),
                      bar_high x - Max (bar_high ` set recent))
                else if recent \<noteq> [] \<and> bar_low x < Min (bar_low ` set recent) * (1 - small_pct)
                then (Some Support, Some (Min (bar_low ` set recent)),
                      Min (bar_low ` set recent) - bar_low x)
                else (None, None, 0))"
proof -
  have len: "\<not> int (length (pre @ recent @ [x])) < L + 2"
    using assms by (cases pre) auto
  show ?thesis
    unfolding detect_minor_sr_breach_def py_slice_recent[OF assms(2)]
    using len py_index_last[of "pre @ recent" x]
    by (simp add: series_max_def series_min_def Let_def)
qed

lemma split_window:
  assumes "L + 2 \<le> int (length df)" "0 \<le> L"
  shows "\<exists>pre recent x. df = pre @ recent @ [x] \<and> pre \<noteq> [] \<and> int (length recent) = L"
proof -
  let ?n = "length df"
  let ?l = "nat L"
  have n: "?l + 2 \<le> ?n" using assms by linarith
  then have ne: "df \<noteq> []" by auto
  let ?pre = "take (?n - 1 - ?l) df"
  let ?recent = "take ?l (drop (?n - 1 - ?l) df)"
  have "butlast df = ?pre @ ?recent"
  proof -
    have "take (?n - 1 - ?l + ?l) df = ?pre @ ?recent" by (simp only: take_add)
    moreover have "?n - 1 - ?l + ?l = ?n - 1" using n by simp
    ultimately show ?thesis by (simp add: butlast_conv_take)
  qed
  then have "df = ?pre @ ?recent @ [last df]"
    using ne append_butlast_last_id[OF ne] by (metis append_assoc)
  moreover have "?pre \<noteq> []" using n by auto
  moreover have "int (length ?recent) = L" using n assms by auto
  ultimately show ?thesis by blast
qed

lemma same_split:
  assumes "pre @ recent @ [x] = ys @ rs @ [y]" "length recent = length rs"
  shows "pre = ys \<and> recent = rs \<and> x = y"
proof -
  have "(pre @ recent) @ [x] = (ys @ rs) @ [y]" using assms(1) by simp
  then have "pre @ recent = ys @ rs" "x = y" by simp_all
  moreover have "length pre = length ys"
    using \<open>pre @ recent = ys @ rs\<close> assms(2)
    by (metis add_right_cancel length_append)
  ultimately show ?thesis by simp
qed

text \<open>
  Claim C5. With fewer than \<open>L + 2\<close> bars the detector reports no signal. Otherwise the
  bars are some earlier bars, then the \<open>L\<close> bars \<open>recent\<close>, then the newest bar \<open>x\<close>;
  the reference levels are the greatest high and the least low of \<open>recent\<close> alone, and
  the result is a resistance breach exactly when the high of \<open>x\<close> exceeds the greatest
  high times \<open>1 + 0.0005\<close>.
\<close>

theorem detect_minor_sr_breach_window:
  "(int (length df_h1) < L + 2 \<longrightarrow> detect_minor_sr_breach df_h1 L = Inr (None, None, 0))
   \<and> (L + 2 \<le> int (length df_h1) \<and> 0 \<le> L \<longrightarrow>
        (\<exists>pre recent x.
           df_h1 = pre @ recent @ [x] \<and> int (length recent) = L \<and>
           detect_minor_sr_breach df_h1 L =
             Inr (if recent \<noteq> [] \<and> bar_high x > Max (bar_high ` set recent) * (1 + 0.0005)
                  then (Some Resistance, Some (Max (bar_high ` set recent)),
                        bar_high x - Max (bar_high ` set recent))
                  else if recent \<noteq> [] \<and> bar_low x < Min (bar_low ` set recent) * (1 - 0.0005)
                  then (Some Support, Some (Min (bar_low ` set recent)),
                        Min (bar_low ` set recent) - bar_low x)
                  else (None, None, 0))))"
proof (intro conjI impI)
  assume "int (length df_h1) < L + 2"
  then show "detect_minor_sr_breach df_h1 L = Inr (None, None, 0)" by (rule detect_short)
next
  assume a: "L + 2 \<le> int (length df_h1) \<and> 0 \<le> L"
  then obtain pre recent x where d: "df_h1 = pre @ recent @ [x]" "pre \<noteq> []"
      "int (length recent) = L"
    using split_window[of L df_h1] by blast
  show "\<exists>pre recent x.
           df_h1 = pre @ recent @ [x] \<and> int (length recent) = L \<and>
           detect_minor_sr_breach df_h1 L =
             Inr (if recent \<noteq> [] \<and> bar_high x > Max (bar_high ` set recent) * (1 + 0.0005)
                  then (Some Resistance, Some (Max (bar_high ` set recent)),
                        bar_high x - Max (bar_high ` set recent))
                  else if recent \<noteq> [] \<and> bar_low x < Min (bar_low ` set recent) * (1 - 0.0005)
                  then (Some Support, Some (Min (bar_low ` set recent)),
                        Min (bar_low ` set recent) - bar_low x)
                  else (None, None, 0))"
    using d detect_window[OF d(2,3), of x] unfolding small_pct_def by blast
qed

theorem detect_minor_sr_breach_window_witness:
  "detect_minor_sr_breach [bar_of 0 1 1 1, bar_of 0 1 1 1] 2 = Inr (None, None, 0)
   \<and> detect_minor_sr_breach
        [bar_of 0 1 1 1, bar_of 0 3 1 1, bar_of 0 1 1 1, bar_of 0 4 1 1] 2
       = Inr (Some Resistance, Some 3, 1)"
proof -
  let ?b = "bar_of 0 1 1 1"
  let ?df = "[?b, bar_of 0 3 1 1, ?b, bar_of 0 4 1 1]"
  have s: "detect_minor_sr_breach [?b, ?b] 2 = Inr (None, None, 0)"
    using detect_minor_sr_breach_window[of "[?b, ?b]" 2] by simp
  from detect_minor_sr_breach_window[of ?df 2]
  obtain pre recent x where d: "?df = pre @ recent @ [x]" "int (length recent) = 2"
    and r: "detect_minor_sr_breach ?df 2 =
             Inr (if recent \<noteq> [] \<and> bar_high x > Max (bar_high ` set recent) * (1 + 0.0005)
                  then (Some Resistance, Some (Max (bar_high ` set recent)),
                        bar_high x - Max (bar_high ` set recent))
                  else if recent \<noteq> [] \<and> bar_low x < Min (bar_low ` set recent) * (1 - 0.0005)
                  then (Some Support, Some (Min (bar_low ` set recent)),
                        Min (bar_low ` set recent) - bar_low x)
                  else (None, None, 0))"
    by auto
  have "pre @ recent @ [x] = [?b] @ [bar_of 0 3 1 1, ?b] @ [bar_of 0 4 1 1]"
    using d(1) by simp
  from same_split[OF this] d(2)
  have "recent = [bar_of 0 3 1 1, ?b]" "x = bar_of 0 4 1 1" by simp_all
  then show ?thesis using s r by (simp add: bar_of_def)
qed

text \<open>
  Claim C6. A call returns one classification: none, resistance or support. When the
  newest bar is beyond both reference levels by more than the tolerance, the result is
  the resistance breach, which is tested first.
\<close>

theorem detect_minor_sr_breach_tie_break:
  "(\<forall>r. detect_minor_sr_breach df_h1 L = Inr r \<longrightarrow>
        fst r = None \<or> fst r = Some Resistance \<or> fst r = Some Support)
   \<and> (df_h1 = pre @ recent @ [x] \<and> pre \<noteq> [] \<and> recent \<noteq> [] \<and> int (length recent) = L
        \<and> bar_high x > Max (bar_high ` set recent) * (1 + 0.0005)
        \<and> bar_low x < Min (bar_low ` set recent) * (1 - 0.0005) \<longrightarrow>
        detect_minor_sr_breach df_h1 L =
          Inr (Some Resistance, Some (Max (bar_high ` set recent)),
               bar_high x - Max (bar_high ` set recent)))"
proof (intro conjI allI impI)
  fix r
  show "fst r = None \<or> fst r = Some Resistance \<or> fst r = Some Support"
  proof (cases "fst r")
    case None
    then show ?thesis by simp
  next
    case (Some t)
    then show ?thesis by (cases t) simp_all
  qed
next
  assume a: "df_h1 = pre @ recent @ [x] \<and> pre \<noteq> [] \<and> recent \<noteq> [] \<and> int (length recent) = L
        \<and> bar_high x > Max (bar_high ` set recent) * (1 + 0.0005)
        \<and> bar_low x < Min (bar_low ` set recent) * (1 - 0.0005)"
  then have "pre \<noteq> []" "int (length recent) = L" by simp_all
  from detect_window[OF this, of x] a
  show "detect_minor_sr_breach df_h1 L =
          Inr (Some Resistance, Some (Max (bar_high ` set recent)),
               bar_high x - Max (bar_high ` set recent))"
    by (simp add: small_pct_def)
qed

theorem detect_minor_sr_breach_tie_break_witness:
  "detect_minor_sr_breach
     [bar_of 0 1 1 1, bar_of 0 1 1 1, bar_of 0 1 1 1, bar_of 0 2 (1/2) 1] 2
   = Inr (Some Resistance, Some 1, 1)"
proof -
  let ?b = "bar_of 0 1 1 1"
  let ?x = "bar_of 0 2 (1/2) 1"
  have "detect_minor_sr_breach ([?b] @ [?b, ?b] @ [?x]) 2 =
          Inr (Some Resistance, Some (Max (bar_high ` set [?b, ?b])),
               bar_high ?x - Max (bar_high ` set [?b, ?b]))"
    using detect_minor_sr_breach_tie_break[of "[?b] @ [?b, ?b] @ [?x]" 2 "[?b]" "[?b, ?b]" ?x]
    by (simp add: bar_of_def)
  then show ?thesis by (simp add: bar_of_def)
qed

section \<open>Properties of the monitor\<close>

lemma py_index_map_last:
  "0 < n \<Longrightarrow> py_index (map f [0..<n]) (- 1) = Inr (f (n - 1))"
proof -
  assume n: "0 < n"
  have "nat (int n - 1) = n - 1" by linarith
  then show ?thesis using n by (simp add: py_index_def Let_def)
qed

lemma py_index_nonempty: "xs \<noteq> [] \<Longrightarrow> py_index xs (- 1) = Inr (last xs)"
proof -
  assume ne: "xs \<noteq> []"
  then have "py_index (butlast xs @ [last xs]) (- 1) = Inr (last xs)"
    by (simp only: py_index_last)
  then show ?thesis using ne by simp
qed

lemma detect_total:
  "df \<noteq> [] \<Longrightarrow> \<exists>r. detect_minor_sr_breach df L = Inr r"
  by (simp add: detect_minor_sr_breach_def py_index_nonempty Let_def)

lemma fisher_transform_total:
  assumes "0 < p"
  shows "\<exists>out. fisher_transform price (int p) = Inr out \<and> length out = length price"
proof -
  obtain s where "fisher_loop price (int p) [0..<length price] (fisher_init (length price)) = Inr s"
    and "fisher_inv price p (length price) s"
    using fisher_loop_inv[OF assms, of "length price" price] by auto
  then show ?thesis by (simp add: fisher_transform_def fisher_inv_def)
qed

lemma fisher_period_total:
  "\<exists>out. fisher_transform price FISHER_PERIOD = Inr out \<and> length out = length price"
  using fisher_transform_total[of 10 price] by (simp add: FISHER_PERIOD_def)

lemma fetch_ohlc_Some: "fetch_ohlc rates = Some df \<longleftrightarrow> rates = Some df \<and> df \<noteq> []"
  by (auto simp: fetch_ohlc_def split: option.splits if_splits)

lemma hour_gate: "(9 \<le> h \<and> h \<le> 10 \<or> 14 \<le> h \<and> h \<le> 17) \<longleftrightarrow> h \<in> {9, 10} \<union> {14, 15, 16, 17::nat}"
  by auto

lemma m15_row_exists:
  "df \<noteq> [] \<Longrightarrow> \<exists>row. py_index (compute_m15_indicators df) (- 1) = Inr row"
proof -
  assume "df \<noteq> []"
  then have "compute_m15_indicators df \<noteq> []"
    by (simp add: compute_m15_indicators_def Let_def)
  from py_index_nonempty[OF this] show ?thesis by blast
qed

lemma monitor_m15_eq:
  "monitor_m15 rates s =
     (if m15_confirms rates
      then (s\<lparr>vars := ((vars s)(3 := 1))(4 := 1)\<rparr>,
            [Fetch TIMEFRAME_M15 M15_LOOKBACK,
             Notify ''M15'' ''Retrace confirmed, ALL conditions met!''], None)
      else (s, [Fetch TIMEFRAME_M15 M15_LOOKBACK], None))"
proof (cases "fetch_ohlc rates")
  case None
  then show ?thesis by (simp add: monitor_m15_def m15_confirms_def)
next
  case (Some df)
  then have "df \<noteq> []" by (simp add: fetch_ohlc_Some)
  from m15_row_exists[OF this] obtain row where
    row: "py_index (compute_m15_indicators df) (- 1) = Inr row" by blast
  show ?thesis
    using Some row by (simp add: monitor_m15_def m15_confirms_def Let_def)
qed

lemma monitor_cycle_no_data:
  "fetch_ohlc h1 = None \<Longrightarrow>
     monitor_cycle rsi h1 m15 s =
       (s, [Fetch TIMEFRAME_H1 H1_LOOKBACK, Log ''No H1 data yet'', Sleep CHECK_INTERVAL])"
  by (simp add: monitor_cycle_def)

lemma all_h1_gates_write:
  "all_h1_gates (write_gates a b c d s) \<longleftrightarrow> a \<and> b \<and> c \<and> d"
  by (simp add: all_h1_gates_def write_gates_def)

lemma monitor_cycle_data:
  assumes "fetch_ohlc h1 = Some df"
  shows "monitor_cycle rsi h1 m15 s =
     (if gate_breach df \<and> gate_divergence rsi df \<and> gate_below_midline rsi df \<and> gate_time df
      then (if m15_confirms m15
            then ((write_gates True True True True s)\<lparr>vars :=
                     ((vars (write_gates True True True True s))(3 := 1))(4 := 1)\<rparr>,
                  [Fetch TIMEFRAME_H1 H1_LOOKBACK,
                   Notify ''H1'' ''Conditions met, checking M15...'',
                   Fetch TIMEFRAME_M15 M15_LOOKBACK,
                   Notify ''M15'' ''Retrace confirmed, ALL conditions met!'',
                   Sleep CHECK_INTERVAL])
            else (write_gates True True True True s,
                  [Fetch TIMEFRAME_H1 H1_LOOKBACK,
                   Notify ''H1'' ''Conditions met, checking M15...'',
                   Fetch TIMEFRAME_M15 M15_LOOKBACK,
                   Sleep CHECK_INTERVAL]))
      else (write_gates (gate_breach df) (gate_divergence rsi df)
              (gate_below_midline rsi df) (gate_time df) s,
            [Fetch TIMEFRAME_H1 H1_LOOKBACK, Sleep CHECK_INTERVAL]))"
proof -
  have ne: "df \<noteq> []" using assms by (simp add: fetch_ohlc_Some)
  then have n: "0 < length df" by simp
  obtain out where out: "fisher_transform (map bar_close df) FISHER_PERIOD = Inr out"
    using fisher_period_total[of "map bar_close df"] by blast
  let ?hin = "map (\<lambda>i. \<lparr>h1_bar = df ! i,
                   h1_rsi = column_at (rsi (map bar_close df) RSI_PERIOD) i,
                   h1_fisher = column_at out i\<rparr>) [0..<length df]"
  have hin: "compute_h1_indicators rsi df = Inr ?hin"
    using out by (simp add: compute_h1_indicators_def Let_def)
  have lst: "py_index ?hin (- 1) =
      Inr \<lparr>h1_bar = last df, h1_rsi = last_rsi rsi df, h1_fisher = last_fisher df\<rparr>"
    using py_index_map_last[OF n] out ne
    by (simp add: last_rsi_def last_fisher_def last_conv_nth)
  obtain sr lvl d where r: "detect_minor_sr_breach df SR_LOOKBACK = Inr (sr, lvl, d)"
    using detect_total[OF ne, of SR_LOOKBACK] by (metis prod_cases3)
  have gb: "nan_ge (nan_abs (nan_sub (last_rsi rsi df) (last_fisher df))) FISHER_RSI_GAP
            = gate_divergence rsi df"
    by (simp add: gate_divergence_def nan_ge_def nan_abs_def nan_sub_def split: option.splits)
  have gc: "nan_lt (last_rsi rsi df) 50 = gate_below_midline rsi df"
    by (simp add: gate_below_midline_def nan_lt_def)
  have gd: "(9 \<le> hour_of (bar_time (last df)) \<and> hour_of (bar_time (last df)) \<le> 10
             \<or> 14 \<le> hour_of (bar_time (last df)) \<and> hour_of (bar_time (last df)) \<le> 17)
            = gate_time df"
    unfolding gate_time_def by (rule hour_gate)
  show ?thesis
  proof (cases sr)
    case None
    then have ga: "\<not> gate_breach df" using r by (simp add: gate_breach_def)
    show ?thesis
      unfolding monitor_cycle_def
      using assms hin lst r None ga
      by (cases s) (simp add: Let_def gb gc gd all_h1_gates_def write_gates_def)
  next
    case (Some t)
    then have ga: "gate_breach df" using r by (simp add: gate_breach_def)
    show ?thesis
      unfolding monitor_cycle_def
      using assms hin lst r Some ga
      by (cases s)
        (simp add: Let_def gb gc gd all_h1_gates_def write_gates_def monitor_m15_eq)
  qed
qed

lemma monitor_cycle_events_state_free:
  "snd (monitor_cycle rsi h1 m15 s) = snd (monitor_cycle rsi h1 m15 s')"
proof (cases "fetch_ohlc h1")
  case None
  then show ?thesis by (simp add: monitor_cycle_no_data)
next
  case (Some df)
  show ?thesis unfolding monitor_cycle_data[OF Some] by simp
qed

section \<open>Properties of the fast stage\<close>

lemma compute_m15_length: "length (compute_m15_indicators df) = length df"
  by (simp add: compute_m15_indicators_def Let_def)

lemma compute_m15_nth:
  assumes "i < length df"
  shows "compute_m15_indicators df ! i =
           \<lparr>m15_bar = df ! i,
            ema50 = column_at (ewm_mean EMA50_M15_PERIOD (map bar_close df)) i,
            sma200 = map_option mean (rolling_window SMA200_PERIOD (map bar_close df) i),
            sma400 = map_option mean (rolling_window SMA400_PERIOD (map bar_close df) i),
            bb_h = map_option (\<lambda>ws. mean ws + 2 * pstd ws)
                     (rolling_window BOLL_WINDOW (map bar_close df) i),
            bb_l = map_option (\<lambda>ws. mean ws - 2 * pstd ws)
                     (rolling_window BOLL_WINDOW (map bar_close df) i)\<rparr>"
  using assms
  by (simp add: compute_m15_indicators_def Let_def column_at_def rolling_mean_def
        bollinger_hband_def bollinger_lband_def)

lemma compute_m15_last:
  assumes "df \<noteq> []"
  shows "py_index (compute_m15_indicators df) (- 1)
           = Inr (compute_m15_indicators df ! (length df - 1))"
proof -
  have "compute_m15_indicators df \<noteq> []" using assms compute_m15_length[of df] by auto
  from py_index_nonempty[OF this] show ?thesis
    by (simp add: last_conv_nth \<open>compute_m15_indicators df \<noteq> []\<close> compute_m15_length)
qed

lemma rolling_window_short: "length xs < w \<Longrightarrow> i < length xs \<Longrightarrow> rolling_window w xs i = None"
  by (simp add: rolling_window_def)

lemma sma400_short:
  assumes "length df < SMA400_PERIOD" "i < length df"
  shows "sma400 (compute_m15_indicators df ! i) = None"
  using assms by (simp add: compute_m15_nth rolling_window_short)

lemma m15_confirms_short:
  assumes "length df < SMA400_PERIOD"
  shows "\<not> m15_confirms (Some df)"
proof (cases "df = []")
  case True
  then show ?thesis by (simp add: m15_confirms_def fetch_ohlc_def)
next
  case False
  then have "length df - 1 < length df" by simp
  from sma400_short[OF assms this] show ?thesis
    using False by (simp add: m15_confirms_def fetch_ohlc_def compute_m15_last isnan_any_def)
qed

lemma ewm_rec_flat: "ewm_rec a c (replicate n c) = replicate n c"
  by (induction n) (simp_all add: Let_def algebra_simps)

lemma ewm_mean_flat: "ewm_mean spn (replicate (Suc n) c) = replicate (Suc n) (Some c)"
  by (simp add: ewm_mean_def ewm_rec_flat)

lemma rolling_window_flat:
  assumes "w \<le> n" "0 < w"
  shows "rolling_window w (replicate n c) (n - 1) = Some (replicate w c)"
proof -
  have "\<not> n - 1 + 1 < w" using assms by simp
  moreover have "min w (n - (n - 1 + 1 - w)) = w" using assms by simp
  ultimately show ?thesis by (simp add: rolling_window_def)
qed

lemma mean_flat: "0 < w \<Longrightarrow> mean (replicate w c) = c"
  by (simp add: mean_def sum_list_replicate)

lemma pstd_flat: "0 < w \<Longrightarrow> pstd (replicate w c) = 0"
  by (simp add: pstd_def mean_flat sum_list_replicate map_replicate_const)

lemma flat_m15_row:
  assumes "SMA400_PERIOD \<le> n"
  shows "last (compute_m15_indicators (replicate n b)) =
           \<lparr>m15_bar = b, ema50 = Some (bar_close b), sma200 = Some (bar_close b),
            sma400 = Some (bar_close b), bb_h = Some (bar_close b),
            bb_l = Some (bar_close b)\<rparr>"
proof -
  have n: "400 \<le> n" using assms by (simp add: SMA400_PERIOD_def)
  then obtain m where m: "n = Suc m" by (cases n) auto
  have ne: "compute_m15_indicators (replicate n b) \<noteq> []"
    using n compute_m15_length[of "replicate n b"] by auto
  have l: "last (compute_m15_indicators (replicate n b))
        = compute_m15_indicators (replicate n b) ! (n - 1)"
    using ne by (simp add: last_conv_nth compute_m15_length)
  have w400: "rolling_window SMA400_PERIOD (replicate n (bar_close b)) (n - 1)
                = Some (replicate SMA400_PERIOD (bar_close b))"
    using n by (intro rolling_window_flat) (simp_all add: SMA400_PERIOD_def)
  have w200: "rolling_window SMA200_PERIOD (replicate n (bar_close b)) (n - 1)
                = Some (replicate SMA200_PERIOD (bar_close b))"
    using n by (intro rolling_window_flat) (simp_all add: SMA200_PERIOD_def)
  have w20: "rolling_window BOLL_WINDOW (replicate n (bar_close b)) (n - 1)
                = Some (replicate BOLL_WINDOW (bar_close b))"
    using n by (intro rolling_window_flat) (simp_all add: BOLL_WINDOW_def)
  have e: "column_at (ewm_mean EMA50_M15_PERIOD (replicate n (bar_close b))) (n - 1)
             = Some (bar_close b)"
    unfolding m ewm_mean_flat by (simp add: column_at_def del: replicate.simps)
  have p: "0 < SMA400_PERIOD" "0 < SMA200_PERIOD" "0 < BOLL_WINDOW"
    by (simp_all add: SMA400_PERIOD_def SMA200_PERIOD_def BOLL_WINDOW_def)
  have i: "n - 1 < length (replicate n b)" using n by simp
  show ?thesis
    unfolding l compute_m15_nth[OF i] map_replicate w400 w200 w20 e
    using n by (simp add: mean_flat pstd_flat p)
qed

text \<open>
  Claim C3. The fast-timeframe request asks for \<open>M15_LOOKBACK = 200\<close> bars, fewer than
  the 400 bars of the long moving average. On every series shorter than 400 bars the
  long average is undefined at every index, \<open>monitor_m15\<close> returns at its guard with the
  monitor unchanged and nothing but the request emitted, and a cycle that receives such a
  series leaves the retrace and all-conditions checkboxes as they were and emits no
  confirmation.
\<close>

theorem sma400_never_defined_under_shipped_lookback:
  "M15_LOOKBACK < int SMA400_PERIOD
   \<and> (length rs < SMA400_PERIOD \<longrightarrow>
        (\<forall>i<length rs. sma400 (compute_m15_indicators rs ! i) = None)
        \<and> monitor_m15 (Some rs) s = (s, [Fetch TIMEFRAME_M15 M15_LOOKBACK], None)
        \<and> vars (fst (monitor_cycle rsi h1 (Some rs) s)) 3 = vars s 3
        \<and> vars (fst (monitor_cycle rsi h1 (Some rs) s)) 4 = vars s 4
        \<and> Notify ''M15'' ''Retrace confirmed, ALL conditions met!''
             \<notin> set (snd (monitor_cycle rsi h1 (Some rs) s)))"
proof (intro conjI impI allI)
  show "M15_LOOKBACK < int SMA400_PERIOD" by (simp add: M15_LOOKBACK_def SMA400_PERIOD_def)
next
  fix i assume "length rs < SMA400_PERIOD" "i < length rs"
  then show "sma400 (compute_m15_indicators rs ! i) = None" by (rule sma400_short)
next
  assume a: "length rs < SMA400_PERIOD"
  note nc = m15_confirms_short[OF a]
  show "monitor_m15 (Some rs) s = (s, [Fetch TIMEFRAME_M15 M15_LOOKBACK], None)"
    using nc by (simp add: monitor_m15_eq)
  show "vars (fst (monitor_cycle rsi h1 (Some rs) s)) 3 = vars s 3"
  proof (cases "fetch_ohlc h1")
    case None
    then show ?thesis by (simp add: monitor_cycle_no_data)
  next
    case (Some df)
    show ?thesis unfolding monitor_cycle_data[OF Some] using nc by (simp add: write_gates_def)
  qed
  show "vars (fst (monitor_cycle rsi h1 (Some rs) s)) 4 = vars s 4"
  proof (cases "fetch_ohlc h1")
    case None
    then show ?thesis by (simp add: monitor_cycle_no_data)
  next
    case (Some df)
    show ?thesis unfolding monitor_cycle_data[OF Some] using nc by (simp add: write_gates_def)
  qed
  show "Notify ''M15'' ''Retrace confirmed, ALL conditions met!''
             \<notin> set (snd (monitor_cycle rsi h1 (Some rs) s))"
  proof (cases "fetch_ohlc h1")
    case None
    then show ?thesis by (simp add: monitor_cycle_no_data)
  next
    case (Some df)
    show ?thesis unfolding monitor_cycle_data[OF Some] using nc by simp
  qed
qed

theorem sma400_never_defined_under_shipped_lookback_witness:
  "length (replicate 200 (bar_of 0 1 1 1)) < SMA400_PERIOD
   \<and> sma400 (compute_m15_indicators (replicate 200 (bar_of 0 1 1 1)) ! 199) = None
   \<and> monitor_m15 (Some (replicate 200 (bar_of 0 1 1 1))) monitor_init
       = (monitor_init, [Fetch TIMEFRAME_M15 M15_LOOKBACK], None)"
proof -
  let ?rs = "replicate 200 (bar_of 0 1 1 1)"
  have h: "length ?rs < SMA400_PERIOD" by (simp add: SMA400_PERIOD_def)
  from sma400_never_defined_under_shipped_lookback[of ?rs monitor_init "\<lambda>c w. []" None] h
  have a: "\<forall>i<length ?rs. sma400 (compute_m15_indicators ?rs ! i) = None"
    and b: "monitor_m15 (Some ?rs) monitor_init
       = (monitor_init, [Fetch TIMEFRAME_M15 M15_LOOKBACK], None)"
    by blast+
  have "sma400 (compute_m15_indicators ?rs ! 199) = None" using a by simp
  then show ?thesis using h b by simp
qed

text \<open>
  Claim C8. When any of the five indicator values of the newest fast-timeframe bar is
  undefined, \<open>monitor_m15\<close> returns normally (no exception), leaves the monitor as it
  was, and emits nothing but its request for bars.
\<close>

theorem fast_stage_undefined_indicator:
  "df \<noteq> [] \<and> row = last (compute_m15_indicators df)
   \<and> (ema50 row = None \<or> sma200 row = None \<or> sma400 row = None
        \<or> bb_h row = None \<or> bb_l row = None) \<longrightarrow>
     m15_bar row = last df
     \<and> monitor_m15 (Some df) s = (s, [Fetch TIMEFRAME_M15 M15_LOOKBACK], None)"
proof (intro impI)
  assume a: "df \<noteq> [] \<and> row = last (compute_m15_indicators df)
   \<and> (ema50 row = None \<or> sma200 row = None \<or> sma400 row = None
        \<or> bb_h row = None \<or> bb_l row = None)"
  then have ne: "df \<noteq> []" by simp
  then have ne': "compute_m15_indicators df \<noteq> []" using compute_m15_length[of df] by auto
  have row: "py_index (compute_m15_indicators df) (- 1) = Inr row"
    using py_index_nonempty[OF ne'] a by simp
  have f: "fetch_ohlc (Some df) = Some df" using ne by (simp add: fetch_ohlc_def)
  have nan: "isnan_any [ema50 row, sma200 row, sma400 row, bb_h row, bb_l row]"
    using a by (auto simp: isnan_any_def)
  have bar: "m15_bar row = last df"
    using a ne ne' by (simp add: last_conv_nth compute_m15_length compute_m15_nth)
  show "m15_bar row = last df
     \<and> monitor_m15 (Some df) s = (s, [Fetch TIMEFRAME_M15 M15_LOOKBACK], None)"
    using bar f row nan by (simp add: monitor_m15_def)
qed

theorem fast_stage_undefined_indicator_witness:
  "sma200 (last (compute_m15_indicators [bar_of 0 1 1 1])) = None
   \<and> m15_bar (last (compute_m15_indicators [bar_of 0 1 1 1])) = bar_of 0 1 1 1
   \<and> monitor_m15 (Some [bar_of 0 1 1 1]) monitor_init
       = (monitor_init, [Fetch TIMEFRAME_M15 M15_LOOKBACK], None)"
proof -
  let ?df = "[bar_of 0 1 1 1]"
  have l: "last (compute_m15_indicators ?df) = compute_m15_indicators ?df ! 0"
    using compute_m15_length[of ?df]
    by (metis One_nat_def diff_self_eq_0 last_conv_nth length_0_conv length_Cons list.size(3) nat.simps(3))
  have n: "sma200 (last (compute_m15_indicators ?df)) = None"
    unfolding l by (simp add: compute_m15_nth rolling_window_def SMA200_PERIOD_def)
  show ?thesis
    using fast_stage_undefined_indicator[of ?df "last (compute_m15_indicators ?df)" monitor_init] n
    by simp
qed

text \<open>
  Claim C9. With all five indicator values of the newest bar defined, the containment
  condition is exactly \<open>lower band < close < upper band\<close>, it is false when the close
  equals either band, and \<open>monitor_m15\<close> confirms exactly when it holds together with
  the trend-side and proximity conditions.
\<close>

theorem fast_stage_containment_strict:
  "df \<noteq> [] \<and> row = last (compute_m15_indicators df) \<and> price = bar_close (m15_bar row)
   \<and> ema50 row = Some e \<and> sma200 row = Some a \<and> sma400 row = Some b
   \<and> bb_h row = Some hi \<and> bb_l row = Some lo \<longrightarrow>
     (not_out_bands lo price hi \<longleftrightarrow> lo < price \<and> price < hi)
     \<and> (price = hi \<or> price = lo \<longrightarrow> \<not> not_out_bands lo price hi)
     \<and> monitor_m15 (Some df) s =
         (if a > b \<and> (lo < price \<and> price < hi) \<and> \<bar>price - e\<bar> \<le> 0.0004
          then (s\<lparr>vars := ((vars s)(3 := 1))(4 := 1)\<rparr>,
                [Fetch TIMEFRAME_M15 M15_LOOKBACK,
                 Notify ''M15'' ''Retrace confirmed, ALL conditions met!''], None)
          else (s, [Fetch TIMEFRAME_M15 M15_LOOKBACK], None))"
proof (intro impI)
  assume h: "df \<noteq> [] \<and> row = last (compute_m15_indicators df) \<and> price = bar_close (m15_bar row)
   \<and> ema50 row = Some e \<and> sma200 row = Some a \<and> sma400 row = Some b
   \<and> bb_h row = Some hi \<and> bb_l row = Some lo"
  then have ne: "df \<noteq> []" by simp
  then have ne': "compute_m15_indicators df \<noteq> []" using compute_m15_length[of df] by auto
  have row: "py_index (compute_m15_indicators df) (- 1) = Inr row"
    using py_index_nonempty[OF ne'] h by simp
  have f: "fetch_ohlc (Some df) = Some df" using ne by (simp add: fetch_ohlc_def)
  have v: "ema50 row = Some e" "sma200 row = Some a" "sma400 row = Some b"
    "bb_h row = Some hi" "bb_l row = Some lo" "price = bar_close (m15_bar row)"
    using h by blast+
  have nan: "\<not> isnan_any [ema50 row, sma200 row, sma400 row, bb_h row, bb_l row]"
    unfolding v by (simp add: isnan_any_def)
  have m: "monitor_m15 (Some df) s =
         (if a > b \<and> (lo < price \<and> price < hi) \<and> \<bar>price - e\<bar> \<le> 0.0004
          then (s\<lparr>vars := ((vars s)(3 := 1))(4 := 1)\<rparr>,
                [Fetch TIMEFRAME_M15 M15_LOOKBACK,
                 Notify ''M15'' ''Retrace confirmed, ALL conditions met!''], None)
          else (s, [Fetch TIMEFRAME_M15 M15_LOOKBACK], None))"
    using f row nan
    by (simp add: monitor_m15_def Let_def not_out_bands_def touched_ema_def v)
  show "(not_out_bands lo price hi \<longleftrightarrow> lo < price \<and> price < hi)
     \<and> (price = hi \<or> price = lo \<longrightarrow> \<not> not_out_bands lo price hi)
     \<and> monitor_m15 (Some df) s =
         (if a > b \<and> (lo < price \<and> price < hi) \<and> \<bar>price - e\<bar> \<le> 0.0004
          then (s\<lparr>vars := ((vars s)(3 := 1))(4 := 1)\<rparr>,
                [Fetch TIMEFRAME_M15 M15_LOOKBACK,
                 Notify ''M15'' ''Retrace confirmed, ALL conditions met!''], None)
          else (s, [Fetch TIMEFRAME_M15 M15_LOOKBACK], None))"
    using m by (auto simp: not_out_bands_def)
qed

section \<open>Worked examples\<close>

lemma fisher_transform_nth:
  assumes "0 < p" "fisher_transform price (int p) = Inr out" "i < length price"
  shows "out ! i = (if p \<le> i then Some (spec_filt price p i) else None)"
proof -
  obtain s where s: "fisher_loop price (int p) [0..<length price] (fisher_init (length price)) = Inr s"
    and inv: "fisher_inv price p (length price) s"
    using fisher_loop_inv[OF assms(1), of "length price" price] by auto
  have "out = fisher s" using s assms(2) by (simp add: fisher_transform_def)
  then show ?thesis using inv assms(3) by (simp add: fisher_inv_def)
qed

lemma spec_window_flat:
  assumes "set price \<subseteq> {c}" "0 < p" "i < length price"
  shows "set (spec_window price p i) = {c}"
proof -
  have "spec_window price p i \<noteq> []" using assms by (simp add: spec_window_nonempty)
  moreover have "set (spec_window price p i) \<subseteq> set price"
    unfolding spec_window_def by (meson set_drop_subset set_take_subset subset_trans)
  ultimately show ?thesis using assms(1) by (cases "spec_window price p i") auto
qed

lemma spec_raw_flat:
  assumes "set price \<subseteq> {c}" "0 < p" "i < length price"
  shows "spec_raw price p i = 0"
proof (cases i)
  case 0
  then show ?thesis by simp
next
  case (Suc j)
  have "set (spec_window price p (Suc j)) = {c}"
    using spec_window_flat[OF assms] Suc by simp
  then show ?thesis using Suc by (simp add: Let_def)
qed

lemma spec_y_flat:
  assumes "set price \<subseteq> {c}" "0 < p" "i < length price"
  shows "spec_y price p i = 0"
  by (simp add: spec_y_def spec_raw_flat[OF assms])

lemma spec_filt_flat:
  assumes "set price \<subseteq> {c}" "0 < p" "i < length price"
  shows "spec_filt price p i = 0"
  using assms(3)
proof (induction i)
  case 0
  then show ?case using spec_y_flat[OF assms(1,2), of 0] by simp
next
  case (Suc j)
  then show ?case using spec_y_flat[OF assms(1,2), of "Suc j"] by simp
qed

lemma last_fisher_flat:
  assumes "set (map bar_close df) \<subseteq> {c}" "10 < length df"
  shows "last_fisher df = Some 0"
proof -
  obtain out where out: "fisher_transform (map bar_close df) (int 10) = Inr out"
    using fisher_transform_total[of 10 "map bar_close df"] by auto
  have i: "length df - 1 < length (map bar_close df)" using assms(2) by simp
  have "out ! (length df - 1) = Some (spec_filt (map bar_close df) 10 (length df - 1))"
    using fisher_transform_nth[OF _ out i] assms(2) by simp
  moreover have "spec_filt (map bar_close df) 10 (length df - 1) = 0"
    using spec_filt_flat[OF assms(1) _ i] by simp
  moreover have "length out = length df"
    using fisher_transform_total[of 10 "map bar_close df"] out by auto
  ultimately show ?thesis using out assms(2)
    by (simp add: last_fisher_def FISHER_PERIOD_def column_at_def)
qed

lemma gate_breach_short: "int (length df) < SR_LOOKBACK + 2 \<Longrightarrow> \<not> gate_breach df"
  by (simp add: gate_breach_def detect_short)

lemma breakout_gates:
  "gate_breach (breakout_bars t)" "gate_divergence sample_rsi (breakout_bars t)"
  "gate_below_midline sample_rsi (breakout_bars t)"
  "gate_time (breakout_bars t) \<longleftrightarrow> hour_of t \<in> {9, 10} \<union> {14, 15, 16, 17}"
proof -
  let ?b = "bar_of t 1 1 1"
  let ?x = "bar_of t 2 1 1"
  have d: "breakout_bars t = [?b] @ replicate 20 ?b @ [?x]" by (simp add: breakout_bars_def)
  have "detect_minor_sr_breach (breakout_bars t) SR_LOOKBACK = Inr (Some Resistance, Some 1, 1)"
    unfolding d using detect_window[of "[?b]" "replicate 20 ?b" SR_LOOKBACK ?x]
    by (simp add: SR_LOOKBACK_def small_pct_def bar_of_def)
  then show "gate_breach (breakout_bars t)" by (simp add: gate_breach_def)
  have len: "length (breakout_bars t) = 22" by (simp add: breakout_bars_def)
  have r: "last_rsi sample_rsi (breakout_bars t) = Some 42"
    by (simp add: last_rsi_def sample_rsi_def column_at_def len)
  have "set (map bar_close (breakout_bars t)) \<subseteq> {1}"
    by (auto simp: breakout_bars_def bar_of_def)
  then have f: "last_fisher (breakout_bars t) = Some 0"
    by (rule last_fisher_flat) (simp add: len)
  show "gate_divergence sample_rsi (breakout_bars t)"
    by (simp add: gate_divergence_def r f FISHER_RSI_GAP_def)
  show "gate_below_midline sample_rsi (breakout_bars t)"
    by (simp add: gate_below_midline_def r)
  have "last (breakout_bars t) = ?x" by (simp add: breakout_bars_def)
  then show "gate_time (breakout_bars t) \<longleftrightarrow> hour_of t \<in> {9, 10} \<union> {14, 15, 16, 17}"
    by (simp add: gate_time_def bar_of_def)
qed

lemma breakout_fetch: "fetch_ohlc (Some (breakout_bars t)) = Some (breakout_bars t)"
  by (simp add: fetch_ohlc_def breakout_bars_def)

lemma hour_15: "hour_of 54000 = 15"
  by (simp add: hour_of_def)

lemma hour_12: "hour_of 43200 = 12"
  by (simp add: hour_of_def)

lemma breakout_flat_rsi_gates:
  "gate_divergence flat_rsi (breakout_bars t)"
  "\<not> gate_below_midline flat_rsi (breakout_bars t)"
proof -
  have len: "length (breakout_bars t) = 22" by (simp add: breakout_bars_def)
  have r: "last_rsi flat_rsi (breakout_bars t) = Some 100"
    by (simp add: last_rsi_def flat_rsi_def column_at_def len RSI_PERIOD_def)
  have "set (map bar_close (breakout_bars t)) \<subseteq> {1}"
    by (auto simp: breakout_bars_def bar_of_def)
  then have f: "last_fisher (breakout_bars t) = Some 0"
    by (rule last_fisher_flat) (simp add: len)
  show "gate_divergence flat_rsi (breakout_bars t)"
    by (simp add: gate_divergence_def r f FISHER_RSI_GAP_def)
  show "\<not> gate_below_midline flat_rsi (breakout_bars t)"
    by (simp add: gate_below_midline_def r)
qed

lemma ewm_rec_flat_prefix:
  "ewm_rec a c (replicate n c @ ys) = replicate n c @ ewm_rec a c ys"
  by (induction n) (simp_all add: Let_def algebra_simps)

lemma ewm_mean_flat_prefix:
  "ewm_mean spn (replicate (Suc n) c @ ys)
     = map Some (replicate (Suc n) c @ ewm_rec (2 / (real spn + 1)) c ys)"
  by (simp add: ewm_mean_def ewm_rec_flat_prefix)

lemma retrace_closes:
  "map bar_close retrace_bars = replicate 398 1 @ [1001 / 1000, 1]"
  by (simp add: retrace_bars_def bar_of_def)

lemma retrace_windows:
  "rolling_window SMA400_PERIOD (replicate 398 1 @ [1001 / 1000, 1]) 399
     = Some (replicate 398 1 @ [1001 / 1000, 1])"
  "rolling_window SMA200_PERIOD (replicate 398 1 @ [1001 / 1000, 1]) 399
     = Some (replicate 198 1 @ [1001 / 1000, 1])"
  "rolling_window BOLL_WINDOW (replicate 398 1 @ [1001 / 1000, 1]) 399
     = Some (replicate 18 1 @ [1001 / 1000, 1])"
  by (simp_all add: rolling_window_def SMA400_PERIOD_def SMA200_PERIOD_def BOLL_WINDOW_def)

lemma retrace_ema:
  "column_at (ewm_mean EMA50_M15_PERIOD (replicate 398 1 @ [1001 / 1000, 1])) 399
     = Some (1 + 98 / 2601000)"
proof -
  have "replicate 398 (1::real) = replicate (Suc 397) 1" by simp
  then have "ewm_mean EMA50_M15_PERIOD (replicate 398 1 @ [1001 / 1000, 1])
      = map Some (replicate (Suc 397) 1 @ ewm_rec (2 / (real EMA50_M15_PERIOD + 1)) 1 [1001 / 1000, 1])"
    by (simp only: ewm_mean_flat_prefix)
  also have "\<dots> = map Some (replicate 398 1 @ [1 + 2 / 51000, 1 + 98 / 2601000])"
    by (simp add: EMA50_M15_PERIOD_def Let_def)
  finally show ?thesis by (simp add: column_at_def nth_append)
qed


lemma retrace_means:
  "mean (replicate 398 1 @ [1001 / 1000, 1]) = 400001 / 400000"
  "mean (replicate 198 1 @ [1001 / 1000, 1]) = 200001 / 200000"
  "mean (replicate 18 1 @ [1001 / 1000, 1]) = 20001 / 20000"
  by (simp_all add: mean_def sum_list_replicate)

lemma retrace_pstd:
  "pstd (replicate 18 1 @ [1001 / 1000, 1]) = sqrt (19 / 400000000)"
proof -
  have "sum_list (map (\<lambda>x. (x - 20001 / 20000)\<^sup>2) (replicate 18 1 @ [1001 / 1000, 1]))
          = (19 / 20000000 :: real)"
    by (simp add: sum_list_replicate map_replicate_const power2_eq_square)
  then show ?thesis by (simp add: pstd_def retrace_means)
qed

lemma retrace_row:
  "last (compute_m15_indicators retrace_bars) =
     \<lparr>m15_bar = bar_of 0 1 1 1, ema50 = Some (1 + 98 / 2601000),
      sma200 = Some (200001 / 200000), sma400 = Some (400001 / 400000),
      bb_h = Some (20001 / 20000 + 2 * sqrt (19 / 400000000)),
      bb_l = Some (20001 / 20000 - 2 * sqrt (19 / 400000000))\<rparr>"
proof -
  have len: "length retrace_bars = 400" by (simp add: retrace_bars_def)
  then have ne: "compute_m15_indicators retrace_bars \<noteq> []"
    using compute_m15_length[of retrace_bars] by auto
  have l: "last (compute_m15_indicators retrace_bars)
        = compute_m15_indicators retrace_bars ! 399"
    using ne by (simp add: last_conv_nth compute_m15_length len)
  have i: "399 < length retrace_bars" by (simp add: len)
  have b: "retrace_bars ! 399 = bar_of 0 1 1 1"
    by (simp add: retrace_bars_def nth_append)
  show ?thesis
    unfolding l compute_m15_nth[OF i] retrace_closes retrace_windows retrace_ema b
    by (simp add: retrace_means retrace_pstd)
qed

lemma retrace_band_width: "1 / 40000 < sqrt (19 / 400000000 :: real)"
  by (rule real_less_rsqrt) (simp add: power2_eq_square)

lemma retrace_confirms: "m15_confirms (Some retrace_bars)"
proof -
  have ne: "retrace_bars \<noteq> []" by (simp add: retrace_bars_def)
  then have ne': "compute_m15_indicators retrace_bars \<noteq> []"
    using compute_m15_length[of retrace_bars] by auto
  have bc: "bar_close (bar_of 0 1 1 1) = 1" by (simp add: bar_of_def)
  show ?thesis
    using ne retrace_band_width
    by (simp add: m15_confirms_def fetch_ohlc_def py_index_nonempty[OF ne'] retrace_row
          isnan_any_def not_out_bands_def touched_ema_def bc)
qed

theorem fast_stage_containment_strict_witness:
  "bb_h (last (compute_m15_indicators (replicate 400 (bar_of 0 1 1 1)))) = Some 1
   \<and> bar_close (m15_bar (last (compute_m15_indicators (replicate 400 (bar_of 0 1 1 1))))) = 1
   \<and> \<not> not_out_bands 1 1 1
   \<and> monitor_m15 (Some (replicate 400 (bar_of 0 1 1 1))) monitor_init
       = (monitor_init, [Fetch TIMEFRAME_M15 M15_LOOKBACK], None)
   \<and> not_out_bands (20001 / 20000 - 2 * sqrt (19 / 400000000)) 1
         (20001 / 20000 + 2 * sqrt (19 / 400000000))
   \<and> monitor_m15 (Some retrace_bars) monitor_init
       = (monitor_init\<lparr>vars := ((vars monitor_init)(3 := 1))(4 := 1)\<rparr>,
          [Fetch TIMEFRAME_M15 M15_LOOKBACK,
           Notify ''M15'' ''Retrace confirmed, ALL conditions met!''], None)"
proof -
  let ?df = "replicate 400 (bar_of 0 1 1 1)"
  have bc: "bar_close (bar_of 0 1 1 1) = 1" by (simp add: bar_of_def)
  have row: "last (compute_m15_indicators ?df) =
           \<lparr>m15_bar = bar_of 0 1 1 1, ema50 = Some 1, sma200 = Some 1,
            sma400 = Some 1, bb_h = Some 1, bb_l = Some 1\<rparr>"
    using flat_m15_row[of 400 "bar_of 0 1 1 1"] by (simp add: SMA400_PERIOD_def bc)
  have ne: "?df \<noteq> []" by simp
  have flat: "bb_h (last (compute_m15_indicators ?df)) = Some 1
      \<and> bar_close (m15_bar (last (compute_m15_indicators ?df))) = 1
      \<and> \<not> not_out_bands 1 1 1
      \<and> monitor_m15 (Some ?df) monitor_init
          = (monitor_init, [Fetch TIMEFRAME_M15 M15_LOOKBACK], None)"
    using fast_stage_containment_strict[of ?df "last (compute_m15_indicators ?df)" 1 1 1 1 1 1
        monitor_init] ne
    by (simp add: row bc)
  have ne2: "retrace_bars \<noteq> []" by (simp add: retrace_bars_def)
  have retrace: "not_out_bands (20001 / 20000 - 2 * sqrt (19 / 400000000)) 1
         (20001 / 20000 + 2 * sqrt (19 / 400000000))
      \<and> monitor_m15 (Some retrace_bars) monitor_init
       = (monitor_init\<lparr>vars := ((vars monitor_init)(3 := 1))(4 := 1)\<rparr>,
          [Fetch TIMEFRAME_M15 M15_LOOKBACK,
           Notify ''M15'' ''Retrace confirmed, ALL conditions met!''], None)"
    using fast_stage_containment_strict[of retrace_bars
        "last (compute_m15_indicators retrace_bars)" 1 "1 + 98 / 2601000"
        "200001 / 200000" "400001 / 400000"
        "20001 / 20000 + 2 * sqrt (19 / 400000000)"
        "20001 / 20000 - 2 * sqrt (19 / 400000000)" monitor_init]
      ne2 retrace_band_width
    by (simp add: retrace_row bc)
  show ?thesis using flat retrace by blast
qed

section \<open>Properties of the cycle\<close>

text \<open>
  Claim C7. The fast stage begins with its request for fast-timeframe bars, so it is
  invoked as often as that request occurs among the events of the cycle. A cycle without
  slow-timeframe bars never makes the request. A cycle with bars ends with all four gate
  fields true exactly when the four gates hold of its bars, and makes the request once
  if they all hold and not at all otherwise.
\<close>

theorem fast_stage_invoked_iff_all_gates:
  "(fetch_ohlc h1 = None \<longrightarrow>
      count_list (snd (monitor_cycle rsi h1 m15 s)) (Fetch TIMEFRAME_M15 M15_LOOKBACK) = 0)
   \<and> (fetch_ohlc h1 = Some df \<longrightarrow>
        (all_h1_gates (fst (monitor_cycle rsi h1 m15 s)) \<longleftrightarrow>
           gate_breach df \<and> gate_divergence rsi df \<and> gate_below_midline rsi df
           \<and> gate_time df)
        \<and> count_list (snd (monitor_cycle rsi h1 m15 s)) (Fetch TIMEFRAME_M15 M15_LOOKBACK)
            = (if gate_breach df \<and> gate_divergence rsi df \<and> gate_below_midline rsi df
                  \<and> gate_time df
               then 1 else 0))"
proof (intro conjI impI)
  assume "fetch_ohlc h1 = None"
  then show "count_list (snd (monitor_cycle rsi h1 m15 s)) (Fetch TIMEFRAME_M15 M15_LOOKBACK) = 0"
    by (simp add: monitor_cycle_no_data)
next
  assume d: "fetch_ohlc h1 = Some df"
  show "all_h1_gates (fst (monitor_cycle rsi h1 m15 s)) \<longleftrightarrow>
           gate_breach df \<and> gate_divergence rsi df \<and> gate_below_midline rsi df
           \<and> gate_time df"
    unfolding monitor_cycle_data[OF d]
    by (simp add: all_h1_gates_def write_gates_def)
  show "count_list (snd (monitor_cycle rsi h1 m15 s)) (Fetch TIMEFRAME_M15 M15_LOOKBACK)
            = (if gate_breach df \<and> gate_divergence rsi df \<and> gate_below_midline rsi df
                  \<and> gate_time df
               then 1 else 0)"
    unfolding monitor_cycle_data[OF d] by simp
qed

theorem fast_stage_invoked_iff_all_gates_witness:
  "count_list (snd (monitor_cycle sample_rsi (Some (breakout_bars 54000)) None monitor_init))
     (Fetch TIMEFRAME_M15 M15_LOOKBACK) = 1
   \<and> all_h1_gates (fst (monitor_cycle sample_rsi (Some (breakout_bars 54000)) None monitor_init))
   \<and> count_list (snd (monitor_cycle sample_rsi (Some (breakout_bars 43200)) None monitor_init))
       (Fetch TIMEFRAME_M15 M15_LOOKBACK) = 0
   \<and> \<not> all_h1_gates (fst (monitor_cycle sample_rsi (Some (breakout_bars 43200)) None monitor_init))
   \<and> count_list (snd (monitor_cycle sample_rsi None None monitor_init))
       (Fetch TIMEFRAME_M15 M15_LOOKBACK) = 0"
proof -
  have n: "fetch_ohlc None = None" by (simp add: fetch_ohlc_def)
  show ?thesis
    using fast_stage_invoked_iff_all_gates[of "Some (breakout_bars 54000)" sample_rsi None
        monitor_init "breakout_bars 54000"]
      fast_stage_invoked_iff_all_gates[of "Some (breakout_bars 43200)" sample_rsi None
        monitor_init "breakout_bars 43200"]
      fast_stage_invoked_iff_all_gates[of None sample_rsi None monitor_init "[]"]
    by (simp add: breakout_fetch breakout_gates hour_15 hour_12 n)
qed

text \<open>
  Claim C4, as the code has it. A cycle without slow-timeframe bars leaves the monitor as
  it was. A cycle with bars overwrites the four gates and the checkboxes \<open>vars[0]\<close>,
  \<open>vars[1]\<close>, \<open>vars[2]\<close> with the values of its own bars, whatever they were before.
  The checkboxes \<open>vars[3]\<close> (retrace) and \<open>vars[4]\<close> (all conditions met) are written
  only when the fast stage confirms, which sets them to 1; otherwise they keep their
  value. The field \<open>m15_retrace_ok\<close> is never written.
\<close>

theorem checklist_state_overwrite:
  "(fetch_ohlc h1 = None \<longrightarrow> fst (monitor_cycle rsi h1 m15 s) = s)
   \<and> (fetch_ohlc h1 = Some df \<longrightarrow>
        h1_sr_breached (fst (monitor_cycle rsi h1 m15 s)) = gate_breach df
        \<and> h1_left_fisher (fst (monitor_cycle rsi h1 m15 s)) = gate_divergence rsi df
        \<and> h1_last_close_below_50 (fst (monitor_cycle rsi h1 m15 s)) = gate_below_midline rsi df
        \<and> h1_time_ok (fst (monitor_cycle rsi h1 m15 s)) = gate_time df
        \<and> vars (fst (monitor_cycle rsi h1 m15 s)) 0 = (if gate_breach df then 1 else 0)
        \<and> vars (fst (monitor_cycle rsi h1 m15 s)) 1 = (if gate_divergence rsi df then 1 else 0)
        \<and> vars (fst (monitor_cycle rsi h1 m15 s)) 2 = (if gate_below_midline rsi df then 1 else 0)
        \<and> vars (fst (monitor_cycle rsi h1 m15 s)) 3
            = (if gate_breach df \<and> gate_divergence rsi df \<and> gate_below_midline rsi df
                  \<and> gate_time df \<and> m15_confirms m15
               then 1 else vars s 3)
        \<and> vars (fst (monitor_cycle rsi h1 m15 s)) 4
            = (if gate_breach df \<and> gate_divergence rsi df \<and> gate_below_midline rsi df
                  \<and> gate_time df \<and> m15_confirms m15
               then 1 else vars s 4)
        \<and> m15_retrace_ok (fst (monitor_cycle rsi h1 m15 s)) = m15_retrace_ok s)"
proof (intro conjI impI)
  assume "fetch_ohlc h1 = None"
  then show "fst (monitor_cycle rsi h1 m15 s) = s" by (simp add: monitor_cycle_no_data)
next
  assume d: "fetch_ohlc h1 = Some df"
  note c = monitor_cycle_data[OF d, of rsi m15 s]
  show "h1_sr_breached (fst (monitor_cycle rsi h1 m15 s)) = gate_breach df"
    unfolding c by (simp add: write_gates_def)
  show "h1_left_fisher (fst (monitor_cycle rsi h1 m15 s)) = gate_divergence rsi df"
    unfolding c by (simp add: write_gates_def)
  show "h1_last_close_below_50 (fst (monitor_cycle rsi h1 m15 s)) = gate_below_midline rsi df"
    unfolding c by (simp add: write_gates_def)
  show "h1_time_ok (fst (monitor_cycle rsi h1 m15 s)) = gate_time df"
    unfolding c by (simp add: write_gates_def)
  show "vars (fst (monitor_cycle rsi h1 m15 s)) 0 = (if gate_breach df then 1 else 0)"
    unfolding c by (simp add: write_gates_def)
  show "vars (fst (monitor_cycle rsi h1 m15 s)) 1 = (if gate_divergence rsi df then 1 else 0)"
    unfolding c by (simp add: write_gates_def)
  show "vars (fst (monitor_cycle rsi h1 m15 s)) 2 = (if gate_below_midline rsi df then 1 else 0)"
    unfolding c by (simp add: write_gates_def)
  show "vars (fst (monitor_cycle rsi h1 m15 s)) 3
            = (if gate_breach df \<and> gate_divergence rsi df \<and> gate_below_midline rsi df
                  \<and> gate_time df \<and> m15_confirms m15
               then 1 else vars s 3)"
    unfolding c by (simp add: write_gates_def)
  show "vars (fst (monitor_cycle rsi h1 m15 s)) 4
            = (if gate_breach df \<and> gate_divergence rsi df \<and> gate_below_midline rsi df
                  \<and> gate_time df \<and> m15_confirms m15
               then 1 else vars s 4)"
    unfolding c by (simp add: write_gates_def)
  show "m15_retrace_ok (fst (monitor_cycle rsi h1 m15 s)) = m15_retrace_ok s"
    unfolding c by (simp add: write_gates_def)
qed

theorem checklist_state_overwrite_witness:
  "h1_sr_breached (fst (monitor_cycle flat_rsi (Some (breakout_bars 43200)) None monitor_init))
   \<and> h1_left_fisher (fst (monitor_cycle flat_rsi (Some (breakout_bars 43200)) None monitor_init))
   \<and> \<not> h1_last_close_below_50
         (fst (monitor_cycle flat_rsi (Some (breakout_bars 43200)) None monitor_init))
   \<and> \<not> h1_time_ok (fst (monitor_cycle flat_rsi (Some (breakout_bars 43200)) None monitor_init))
   \<and> vars (fst (monitor_cycle flat_rsi (Some (breakout_bars 43200)) None monitor_init)) 0 = 1
   \<and> vars (fst (monitor_cycle flat_rsi (Some (breakout_bars 43200)) None monitor_init)) 1 = 1
   \<and> vars (fst (monitor_cycle flat_rsi (Some (breakout_bars 43200)) None monitor_init)) 2 = 0
   \<and> vars (fst (monitor_cycle flat_rsi (Some (breakout_bars 43200)) None monitor_init)) 3 = 0
   \<and> vars (fst (monitor_cycle flat_rsi (Some (breakout_bars 43200)) None monitor_init)) 4 = 0
   \<and> \<not> m15_retrace_ok
         (fst (monitor_cycle flat_rsi (Some (breakout_bars 43200)) None monitor_init))
   \<and> fst (monitor_cycle flat_rsi None None monitor_init) = monitor_init"
proof -
  have n: "fetch_ohlc None = None" by (simp add: fetch_ohlc_def)
  show ?thesis
    using checklist_state_overwrite[of "Some (breakout_bars 43200)" flat_rsi None
        monitor_init "breakout_bars 43200"]
      checklist_state_overwrite[of None flat_rsi None monitor_init "[]"]
    by (simp add: breakout_fetch breakout_gates breakout_flat_rsi_gates hour_12 n
          monitor_init_def)
qed

text \<open>
  Claim C4 as written fails: a cycle that gets bars with a breach, followed by a cycle
  in which the terminal returns no bars, ends with the breach gate and its checkbox
  still set, although the second cycle computed nothing; the same no-data cycle run on
  a fresh monitor leaves them clear.
\<close>

theorem checklist_state_stale_counterexample:
  "h1_sr_breached
     (fst (monitor_loop flat_rsi [(Some (breakout_bars 54000), None), (None, None)]
             monitor_init))
   \<and> vars (fst (monitor_loop flat_rsi [(Some (breakout_bars 54000), None), (None, None)]
                  monitor_init)) 0 = 1
   \<and> \<not> h1_sr_breached (fst (monitor_loop flat_rsi [(None, None)] monitor_init))
   \<and> vars (fst (monitor_loop flat_rsi [(None, None)] monitor_init)) 0 = 0"
proof -
  have n: "fetch_ohlc None = None" by (simp add: fetch_ohlc_def)
  show ?thesis
    by (simp add: monitor_cycle_data[OF breakout_fetch] monitor_cycle_no_data[OF n]
          breakout_gates breakout_flat_rsi_gates write_gates_def monitor_init_def)
qed

text \<open>
  Claim C10. The events of a cycle do not depend on the monitor it starts from, so
  nothing recorded in an earlier cycle can suppress a notification; two cycles in a row
  on the same answers emit the same events twice; and a cycle whose four gates hold
  emits the slow-stage notification, and the confirmation as well when the fast stage
  confirms.
\<close>

theorem notifications_not_suppressed:
  "snd (monitor_cycle rsi h1 m15 s) = snd (monitor_cycle rsi h1 m15 s')
   \<and> snd (monitor_loop rsi [(h1, m15), (h1, m15)] s)
       = snd (monitor_cycle rsi h1 m15 s) @ snd (monitor_cycle rsi h1 m15 s)
   \<and> (fetch_ohlc h1 = Some df \<and> gate_breach df \<and> gate_divergence rsi df
        \<and> gate_below_midline rsi df \<and> gate_time df \<longrightarrow>
        Notify ''H1'' ''Conditions met, checking M15...'' \<in> set (snd (monitor_cycle rsi h1 m15 s))
        \<and> (m15_confirms m15 \<longrightarrow>
             Notify ''M15'' ''Retrace confirmed, ALL conditions met!''
               \<in> set (snd (monitor_cycle rsi h1 m15 s))))"
proof (intro conjI impI)
  show "snd (monitor_cycle rsi h1 m15 s) = snd (monitor_cycle rsi h1 m15 s')"
    by (rule monitor_cycle_events_state_free)
  show "snd (monitor_loop rsi [(h1, m15), (h1, m15)] s)
       = snd (monitor_cycle rsi h1 m15 s) @ snd (monitor_cycle rsi h1 m15 s)"
  proof -
    obtain s1 e1 where c1: "monitor_cycle rsi h1 m15 s = (s1, e1)" by force
    obtain s2 e2 where c2: "monitor_cycle rsi h1 m15 s1 = (s2, e2)" by force
    have "e2 = e1"
      using monitor_cycle_events_state_free[of rsi h1 m15 s1 s] c1 c2 by simp
    then show ?thesis by (simp add: c1 c2)
  qed
next
  assume a: "fetch_ohlc h1 = Some df \<and> gate_breach df \<and> gate_divergence rsi df
        \<and> gate_below_midline rsi df \<and> gate_time df"
  then have d: "fetch_ohlc h1 = Some df" by simp
  show "Notify ''H1'' ''Conditions met, checking M15...'' \<in> set (snd (monitor_cycle rsi h1 m15 s))"
    unfolding monitor_cycle_data[OF d] using a by simp
  show "Notify ''M15'' ''Retrace confirmed, ALL conditions met!''
               \<in> set (snd (monitor_cycle rsi h1 m15 s))" if "m15_confirms m15"
    unfolding monitor_cycle_data[OF d] using a that by simp
qed

theorem notifications_not_suppressed_witness:
  "snd (monitor_loop sample_rsi
          [(Some (breakout_bars 54000), Some retrace_bars),
           (Some (breakout_bars 54000), Some retrace_bars)] monitor_init)
   = [Fetch TIMEFRAME_H1 H1_LOOKBACK, Notify ''H1'' ''Conditions met, checking M15...'',
      Fetch TIMEFRAME_M15 M15_LOOKBACK,
      Notify ''M15'' ''Retrace confirmed, ALL conditions met!'', Sleep CHECK_INTERVAL,
      Fetch TIMEFRAME_H1 H1_LOOKBACK, Notify ''H1'' ''Conditions met, checking M15...'',
      Fetch TIMEFRAME_M15 M15_LOOKBACK,
      Notify ''M15'' ''Retrace confirmed, ALL conditions met!'', Sleep CHECK_INTERVAL]
   \<and> Notify ''H1'' ''Conditions met, checking M15...''
       \<in> set (snd (monitor_cycle sample_rsi (Some (breakout_bars 54000)) (Some retrace_bars)
                     monitor_init))
   \<and> Notify ''M15'' ''Retrace confirmed, ALL conditions met!''
       \<in> set (snd (monitor_cycle sample_rsi (Some (breakout_bars 54000)) (Some retrace_bars)
                     monitor_init))"
proof -
  let ?h1 = "Some (breakout_bars 54000)"
  let ?m15 = "Some retrace_bars"
  have ev: "snd (monitor_cycle sample_rsi ?h1 ?m15 monitor_init)
     = [Fetch TIMEFRAME_H1 H1_LOOKBACK, Notify ''H1'' ''Conditions met, checking M15...'',
        Fetch TIMEFRAME_M15 M15_LOOKBACK,
        Notify ''M15'' ''Retrace confirmed, ALL conditions met!'', Sleep CHECK_INTERVAL]"
    by (simp add: monitor_cycle_data[OF breakout_fetch] breakout_gates hour_15
          retrace_confirms)
  note t = notifications_not_suppressed[of sample_rsi ?h1 ?m15 monitor_init monitor_init
      "breakout_bars 54000"]
  have two: "snd (monitor_loop sample_rsi [(?h1, ?m15), (?h1, ?m15)] monitor_init)
     = snd (monitor_cycle sample_rsi ?h1 ?m15 monitor_init)
       @ snd (monitor_cycle sample_rsi ?h1 ?m15 monitor_init)"
    using t by blast
  have g: "fetch_ohlc ?h1 = Some (breakout_bars 54000) \<and> gate_breach (breakout_bars 54000)
      \<and> gate_divergence sample_rsi (breakout_bars 54000)
      \<and> gate_below_midline sample_rsi (breakout_bars 54000)
      \<and> gate_time (breakout_bars 54000)"
    by (simp add: breakout_fetch breakout_gates hour_15)
  have mem: "Notify ''H1'' ''Conditions met, checking M15...''
       \<in> set (snd (monitor_cycle sample_rsi ?h1 ?m15 monitor_init))
     \<and> Notify ''M15'' ''Retrace confirmed, ALL conditions met!''
       \<in> set (snd (monitor_cycle sample_rsi ?h1 ?m15 monitor_init))"
    using t g retrace_confirms by blast
  show ?thesis using two mem unfolding ev by simp
qed

end
